theory Spec2Isabelle
  imports Complex_Main
begin

section \<open>The P2P fragment loader of hlsjs-p2p-wrapper\<close>

text \<open>
  A shallow embedding of the class \<open>P2PLoader\<close> returned by \<open>P2PLoaderGenerator\<close> in
  \<^verbatim>\<open>lib/integration/p2p-loader-generator.js\<close>.

  JavaScript numbers that measure time (clock readings, durations, delays) are modelled as
  reals, the sums and differences that the source computes on them being rounded as those
  of doubles are; byte counts and counters as naturals; byte-range offsets as integers.
  Every method takes the instance and returns it updated. A method that throws returns
  \<open>Inl (e, s)\<close>, where \<open>s\<close> holds the assignments made before the throw, since a JavaScript
  exception does not undo them. Readings of \<^verbatim>\<open>performance.now()\<close> are parameters of the
  method that takes them. \<^verbatim>\<open>console.warn\<close> and \<^verbatim>\<open>console.error\<close> are not modelled.
\<close>

subsection \<open>Data\<close>

type_synonym timer_id = nat
type_synonym handle = nat
type_synonym callback = nat
type_synonym segment_data = string

datatype error =
    ProgressCallbackMissing
  | FragmentMissing
  | PeerAgentMissing
  | NotResetCorrectly
  | TypeError

text \<open>A field that the code tests with \<^verbatim>\<open>=== null\<close> distinguishes \<^verbatim>\<open>undefined\<close> from \<^verbatim>\<open>null\<close>.\<close>

datatype 'a nullable = Undefined | Null | Val 'a

text \<open>The fragment fields the loader reads. An offset that is not a number is \<open>None\<close>.\<close>

record frag =
  byteRangeStartOffset :: "int option"
  byteRangeEndOffset :: "int option"
  level :: nat
  sn :: nat
  start :: real

text \<open>
  The object the backend passes to its progress and success callbacks. A byte count may
  be absent.
\<close>

record transfer_stats =
  cdnDownloaded :: "nat option"
  p2pDownloaded :: "nat option"
  cdnDuration :: real
  p2pDuration :: real

text \<open>
  \<^verbatim>\<open>this.stats\<close>. \<open>loaded\<close> and \<open>tload\<close> are \<open>None\<close> while unassigned; an unassigned
  \<open>aborted\<close> is falsy, hence \<open>False\<close>.
\<close>

record stats =
  trequest :: real
  retry :: nat
  tfirst :: "real nullable"
  loaded :: "nat option"
  tload :: "real option"
  aborted :: bool

record track_view =
  tv_level :: nat
  tv_urlId :: nat

record segment_view =
  sv_sn :: nat
  sv_trackView :: track_view
  sv_time :: real

record req_info =
  req_url :: string
  headers :: "string \<rightharpoonup> string"
  withCredentials :: bool

text \<open>
  The closure variable \<^verbatim>\<open>hlsjsWrapper\<close> and the imported helper
  \<^verbatim>\<open>extractInfoFromXhrSetup\<close>, whose code is outside this file: the helper is a parameter.
\<close>

record wrapper =
  peerAgentModule :: bool
  levels :: "nat list"
  extractInfoFromXhrSetup :: "nat option \<Rightarrow> string \<Rightarrow> (string \<rightharpoonup> string) \<times> bool"

datatype timer_cb = LoadTimeoutCb | LoadInternalCb

datatype host_call =
    OnSuccess callback segment_data stats
  | OnError callback nat
  | OnTimeout callback "stats option"
  | OnProgress callback transfer_stats stats

text \<open>
  The instance fields of \<open>P2PLoader\<close>, followed by the part of the JavaScript runtime and of
  the backend that the loader acts on: the armed timers (identity, callback, delay), the
  transfers in flight, the transfers cancelled through their handle, every request issued
  to \<^verbatim>\<open>getSegment\<close>, and the calls made to the host's callbacks, oldest first.
  \<open>url\<close> to \<open>retryDelay\<close> are assigned by \<open>load\<close>; no method reads them before.
\<close>

record loader =
  xhrSetup :: "nat option"
  requestTimeout :: "timer_id option"
  retryTimeout :: "timer_id option"
  peerAgentLoader :: "handle option"
  byteRange :: "string option"
  frag :: "frag option"
  url :: string
  responseType :: string
  onSuccess :: "callback option"
  onProgress :: "callback option"
  onTimeout :: "callback option"
  onError :: "callback option"
  stats :: "stats option"
  timeout :: real
  maxRetry :: nat
  retryDelay :: real
  timers :: "(timer_id \<times> timer_cb \<times> real) list"
  next_timer :: nat
  live :: "handle list"
  cancelled :: "handle list"
  requests :: "(handle \<times> req_info \<times> segment_view) list"
  next_handle :: nat
  calls :: "host_call list"

type_synonym outcome = "(error \<times> loader) + loader"

text \<open>The arguments of \<open>load\<close>, in the order of the source.\<close>

record load_call =
  arg_url :: string
  arg_responseType :: string
  arg_onSuccess :: "callback option"
  arg_onError :: "callback option"
  arg_onTimeout :: "callback option"
  arg_timeout :: real
  arg_maxRetry :: nat
  arg_retryDelay :: real
  arg_onProgress :: "callback option"
  arg_frag :: "frag option"

subsection \<open>Runtime primitives\<close>

definition setTimeout :: "timer_cb \<Rightarrow> real \<Rightarrow> loader \<Rightarrow> timer_id \<times> loader" where
  "setTimeout cb delay s =
     (next_timer s,
      s\<lparr>timers := timers s @ [(next_timer s, cb, delay)], next_timer := Suc (next_timer s)\<rparr>)"

definition clearTimeout :: "timer_id option \<Rightarrow> loader \<Rightarrow> loader" where
  "clearTimeout t s =
     (case t of
        None \<Rightarrow> s
      | Some i \<Rightarrow> s\<lparr>timers := filter (\<lambda>x. fst x \<noteq> i) (timers s)\<rparr>)"

definition getSegment :: "req_info \<Rightarrow> segment_view \<Rightarrow> loader \<Rightarrow> handle \<times> loader" where
  "getSegment r v s =
     (next_handle s,
      s\<lparr>live := live s @ [next_handle s],
        requests := requests s @ [(next_handle s, r, v)],
        next_handle := Suc (next_handle s)\<rparr>)"

definition abortTransfer :: "handle \<Rightarrow> loader \<Rightarrow> loader" where
  "abortTransfer h s = s\<lparr>live := removeAll h (live s), cancelled := cancelled s @ [h]\<rparr>"

definition host :: "host_call \<Rightarrow> loader \<Rightarrow> loader" where
  "host c s = s\<lparr>calls := calls s @ [c]\<rparr>"

subsection \<open>Number formatting\<close>

definition digit :: "nat \<Rightarrow> char" where
  "digit n = ''0123456789'' ! n"

fun showNat :: "nat \<Rightarrow> string" where
  "showNat n = (if n < 10 then [digit n] else showNat (n div 10) @ [digit (n mod 10)])"

declare showNat.simps [simp del]

definition showInt :: "int \<Rightarrow> string" where
  "showInt i = (if i < 0 then ''-'' @ showNat (nat (- i)) else showNat (nat i))"

text \<open>
  The template literal of \<open>loadInternal\<close>. An offset that is not a number prints as
  \<^verbatim>\<open>undefined\<close>, and \<^verbatim>\<open>undefined - 1\<close> as \<^verbatim>\<open>NaN\<close>.
\<close>

definition rangeHeader :: "frag \<Rightarrow> string" where
  "rangeHeader f =
     ''bytes='' @ (case byteRangeStartOffset f of None \<Rightarrow> ''undefined'' | Some a \<Rightarrow> showInt a)
       @ ''-'' @ (case byteRangeEndOffset f of None \<Rightarrow> ''NaN'' | Some b \<Rightarrow> showInt (b - 1))"

subsection \<open>Double arithmetic\<close>

text \<open>
  A JavaScript number is a double. The numbers of the model are reals, and where the source
  adds or subtracts two of them the result is rounded to the nearest double, ties to the
  even significand: \<open>fl\<close> keeps 53 significant bits. Overflow to infinity, subnormal results
  and \<^verbatim>\<open>NaN\<close> are outside the model. Halving, doubling, \<^verbatim>\<open>Math.min\<close> and \<^verbatim>\<open>Math.max\<close> are
  exact on doubles and need no rounding.
\<close>

definition round_even :: "real \<Rightarrow> int" where
  "round_even y =
     (let f = \<lfloor>y\<rfloor>; r = y - of_int f
      in if r < 1 / 2 then f else if 1 / 2 < r then f + 1 else if even f then f else f + 1)"

definition fl :: "real \<Rightarrow> real" where
  "fl x =
     (if x = 0 then 0
      else let u = 2 powr (of_int \<lfloor>log 2 \<bar>x\<bar>\<rfloor> - 52)
           in of_int (round_even (x / u)) * u)"


subsection \<open>The methods of \<open>P2PLoader\<close>\<close>

definition reset :: "bool \<Rightarrow> loader \<Rightarrow> loader" where
  "reset cancelRetry s =
     (let s1 = (clearTimeout (requestTimeout s) s)\<lparr>requestTimeout := None\<rparr>;
          s2 = (if cancelRetry then (clearTimeout (retryTimeout s1) s1)\<lparr>retryTimeout := None\<rparr>
                else s1)
      in s2\<lparr>peerAgentLoader := None\<rparr>)"

definition abort :: "loader \<Rightarrow> outcome" where
  "abort s =
     (case peerAgentLoader s of
        Some h \<Rightarrow>
          (case stats s of
             None \<Rightarrow> Inl (TypeError, s)
           | Some st \<Rightarrow>
               Inr (reset True (abortTransfer h (s\<lparr>stats := Some (st\<lparr>aborted := True\<rparr>)\<rparr>))))
      | None \<Rightarrow> Inr (reset True s))"

definition destroy :: "loader \<Rightarrow> outcome" where
  "destroy s = abort s"

text \<open>
  The constructor, run in a runtime with no timer armed and no transfer issued. It ends
  with \<open>reset()\<close>, whose parameter defaults to \<open>true\<close>.
\<close>

definition P2PLoader :: "nat option option \<Rightarrow> loader" where
  "P2PLoader config =
     reset True
       \<lparr>xhrSetup = (case config of None \<Rightarrow> None | Some x \<Rightarrow> x),
        requestTimeout = None, retryTimeout = None, peerAgentLoader = None,
        byteRange = None, frag = None, url = [], responseType = [],
        onSuccess = None, onProgress = None, onTimeout = None, onError = None,
        stats = None, timeout = 0, maxRetry = 0, retryDelay = 0,
        timers = [], next_timer = 1, live = [], cancelled = [], requests = [],
        next_handle = 1, calls = []\<rparr>"

definition loadInternal :: "wrapper \<Rightarrow> loader \<Rightarrow> outcome" where
  "loadInternal w s =
     (if peerAgentLoader s \<noteq> None then Inl (NotResetCorrectly, s)
      else
        let (hdrs, wc) = extractInfoFromXhrSetup w (xhrSetup s) (url s) in
        case frag s of
          None \<Rightarrow> Inl (TypeError, s)
        | Some f \<Rightarrow>
            let hdrs' = (if (case byteRange s of None \<Rightarrow> False | Some b \<Rightarrow> b \<noteq> [])
                         then hdrs(''Range'' \<mapsto> rangeHeader f) else hdrs)
            in
            if length (levels w) \<le> level f then Inl (TypeError, s)
            else
              let trackView = \<lparr>tv_level = level f, tv_urlId = levels w ! level f\<rparr>;
                  segmentView = \<lparr>sv_sn = sn f, sv_trackView = trackView, sv_time = start f\<rparr>;
                  reqInfo = \<lparr>req_url = url s, headers = hdrs', withCredentials = wc\<rparr>
              in
              case stats s of
                None \<Rightarrow> Inl (TypeError, s)
              | Some st \<Rightarrow>
                  let s1 = s\<lparr>stats := Some (st\<lparr>tfirst := Null, loaded := Some 0\<rparr>)\<rparr>;
                      (t, s2) = setTimeout LoadTimeoutCb (timeout s1) s1;
                      s3 = s2\<lparr>requestTimeout := Some t\<rparr>
                  in
                  if \<not> peerAgentModule w then Inl (TypeError, s3)
                  else
                    let (h, s4) = getSegment reqInfo segmentView s3
                    in Inr (s4\<lparr>peerAgentLoader := Some h\<rparr>))"

definition load :: "wrapper \<Rightarrow> real \<Rightarrow> load_call \<Rightarrow> loader \<Rightarrow> outcome" where
  "load w now c s =
     (if arg_onProgress c = None then Inl (ProgressCallbackMissing, s)
      else
        case arg_frag c of
          None \<Rightarrow> Inl (FragmentMissing, s)
        | Some f \<Rightarrow>
            if \<not> peerAgentModule w then Inl (PeerAgentMissing, s)
            else
              let s1 = (case (byteRangeStartOffset f, byteRangeEndOffset f) of
                          (Some a, Some b) \<Rightarrow> s\<lparr>byteRange := Some (showInt a @ ''-'' @ showInt b)\<rparr>
                        | _ \<Rightarrow> s)
              in
              loadInternal w
                (s1\<lparr>frag := Some f,
                    url := arg_url c,
                    responseType := arg_responseType c,
                    onSuccess := arg_onSuccess c,
                    onProgress := arg_onProgress c,
                    onTimeout := arg_onTimeout c,
                    onError := arg_onError c,
                    stats := Some \<lparr>trequest = now, retry = 0, tfirst = Undefined,
                                   loaded = None, tload = None, aborted = False\<rparr>,
                    timeout := arg_timeout c,
                    maxRetry := arg_maxRetry c,
                    retryDelay := arg_retryDelay c\<rparr>))"

text \<open>
  \<open>loadSuccess\<close> reads the clock twice: \<open>now\<close> inside the branch that back-dates the
  request, \<open>now'\<close> for \<open>tload\<close>. Its sum and its difference are double operations.
\<close>

definition loadSuccess :: "real \<Rightarrow> real \<Rightarrow> segment_data \<Rightarrow> transfer_stats \<Rightarrow> loader \<Rightarrow> outcome" where
  "loadSuccess now now' segmentData bs s =
     (case stats s of
        None \<Rightarrow> Inl (TypeError, s)
      | Some st \<Rightarrow>
          if aborted st then Inr s
          else
            let st1 = (if fl (p2pDuration bs + cdnDuration bs) > 0
                          \<and> (case p2pDownloaded bs of None \<Rightarrow> False | Some n \<Rightarrow> n > 0)
                       then
                         let srTime = fl (p2pDuration bs + cdnDuration bs);
                             latency = min (srTime / 2) 10;
                             st' = st\<lparr>trequest := fl (now - srTime)\<rparr>
                         in st'\<lparr>tfirst := Val (fl (trequest st' + latency))\<rparr>
                       else st);
                st2 = st1\<lparr>tload := Some now'\<rparr>;
                s1 = s\<lparr>stats := Some st2\<rparr>
            in
            case onSuccess s1 of
              None \<Rightarrow> Inl (TypeError, s1)
            | Some cb \<Rightarrow> Inr (reset True (host (OnSuccess cb segmentData st2) s1)))"

definition loadError :: "nat \<Rightarrow> loader \<Rightarrow> outcome" where
  "loadError status s =
     (case stats s of
        None \<Rightarrow> Inl (TypeError, s)
      | Some st \<Rightarrow>
          if aborted st then Inr s
          else if retry st < maxRetry s then
            let (t, s1) = setTimeout LoadInternalCb (retryDelay s) s;
                s2 = s1\<lparr>retryTimeout := Some t\<rparr>;
                s3 = s2\<lparr>retryDelay := min (2 * retryDelay s2) 64000\<rparr>;
                s4 = s3\<lparr>stats := Some (st\<lparr>retry := Suc (retry st)\<rparr>)\<rparr>
            in Inr (reset False s4)
          else
            case onError s of
              None \<Rightarrow> Inl (TypeError, s)
            | Some cb \<Rightarrow> Inr (reset True (host (OnError cb status) s)))"

definition loadProgress :: "real \<Rightarrow> transfer_stats \<Rightarrow> loader \<Rightarrow> outcome" where
  "loadProgress now event s =
     (case stats s of
        None \<Rightarrow> Inl (TypeError, s)
      | Some st \<Rightarrow>
          let loaded0 = 0;
              loaded1 = (case cdnDownloaded event of
                           None \<Rightarrow> loaded0
                         | Some n \<Rightarrow> if n \<noteq> 0 then loaded0 + n else loaded0);
              loaded2 = (case p2pDownloaded event of
                           None \<Rightarrow> loaded1
                         | Some n \<Rightarrow> if n \<noteq> 0 then loaded1 + n else loaded1);
              st1 = st\<lparr>loaded := Some loaded2\<rparr>;
              st2 = (if tfirst st1 = Null then st1\<lparr>tfirst := Val (max now (trequest st1))\<rparr>
                     else st1);
              s1 = s\<lparr>stats := Some st2\<rparr>
          in
          case onProgress s1 of
            None \<Rightarrow> Inl (TypeError, s1)
          | Some cb \<Rightarrow> Inr (host (OnProgress cb event st2) s1))"

definition loadTimeout :: "loader \<Rightarrow> outcome" where
  "loadTimeout s =
     (case onTimeout s of
        None \<Rightarrow> Inl (TypeError, s)
      | Some cb \<Rightarrow> Inr (host (OnTimeout cb (stats s)) s))"

subsection \<open>The loader in its environment\<close>

text \<open>
  What can happen to a loader: the host calls \<open>load\<close>, \<open>abort\<close> or \<open>destroy\<close>; the backend
  calls one of the three hooks that \<open>loadInternal\<close> bound to the instance, on behalf of a
  transfer; an armed timer fires. The hooks do not know which transfer calls them.
\<close>

datatype event =
    Load real load_call
  | Abort
  | Destroy
  | BackendSuccess handle real real segment_data transfer_stats
  | BackendError handle nat
  | BackendProgress handle real transfer_stats
  | TimerFires timer_id

text \<open>A terminal callback ends its transfer.\<close>

definition finished :: "handle \<Rightarrow> loader \<Rightarrow> loader" where
  "finished h s = s\<lparr>live := removeAll h (live s), cancelled := removeAll h (cancelled s)\<rparr>"

definition fireTimer :: "wrapper \<Rightarrow> timer_id \<Rightarrow> loader \<Rightarrow> outcome" where
  "fireTimer w t s =
     (case find (\<lambda>x. fst x = t) (timers s) of
        None \<Rightarrow> Inr s
      | Some (i, cb, d) \<Rightarrow>
          (let s1 = s\<lparr>timers := filter (\<lambda>x. fst x \<noteq> t) (timers s)\<rparr>
           in case cb of
                LoadTimeoutCb \<Rightarrow> loadTimeout s1
              | LoadInternalCb \<Rightarrow> loadInternal w s1))"

fun exec :: "wrapper \<Rightarrow> event \<Rightarrow> loader \<Rightarrow> outcome" where
  "exec w (Load now c) s = load w now c s"
| "exec w Abort s = abort s"
| "exec w Destroy s = destroy s"
| "exec w (BackendSuccess h now now' d bs) s = loadSuccess now now' d bs (finished h s)"
| "exec w (BackendError h status) s = loadError status (finished h s)"
| "exec w (BackendProgress h now ev) s = loadProgress now ev s"
| "exec w (TimerFires t) s = fireTimer w t s"

text \<open>The instance after a call, whether the call returned or threw.\<close>

fun state_of :: "outcome \<Rightarrow> loader" where
  "state_of (Inl (e, s)) = s"
| "state_of (Inr s) = s"

fun run :: "wrapper \<Rightarrow> event list \<Rightarrow> loader \<Rightarrow> loader" where
  "run w [] s = s"
| "run w (ev # evs) s = run w evs (state_of (exec w ev s))"

subsection \<open>Scenarios\<close>

text \<open>The backend reports the failure of the transfer whose handle the loader holds.\<close>

definition transferFails :: "wrapper \<Rightarrow> nat \<Rightarrow> loader \<Rightarrow> outcome" where
  "transferFails w status s =
     (case peerAgentLoader s of
        None \<Rightarrow> Inr s
      | Some h \<Rightarrow> exec w (BackendError h status) s)"

text \<open>The timer stored in \<open>retryTimeout\<close> fires.\<close>

definition retryFires :: "wrapper \<Rightarrow> loader \<Rightarrow> outcome" where
  "retryFires w s =
     (case retryTimeout s of
        None \<Rightarrow> Inr s
      | Some t \<Rightarrow> exec w (TimerFires t) s)"

text \<open>
  A sequence of backend failures, given by their status codes: between two failures the
  retry timer fires and starts the next attempt. The result is the state right after the
  last failure.
\<close>

fun failures :: "wrapper \<Rightarrow> nat list \<Rightarrow> loader \<Rightarrow> loader" where
  "failures w [] s = s"
| "failures w [e] s = state_of (transferFails w e s)"
| "failures w (e # es) s = failures w es (state_of (retryFires w (state_of (transferFails w e s))))"

text \<open>The delays of the timers that are armed to call \<open>loadInternal\<close>.\<close>

definition retry_delays :: "loader \<Rightarrow> real list" where
  "retry_delays s = map (\<lambda>x. snd (snd x)) (filter (\<lambda>x. fst (snd x) = LoadInternalCb) (timers s))"

text \<open>The progress samples of one transfer, each with the clock reading of its callback.\<close>

fun progress_events :: "handle \<Rightarrow> (real \<times> transfer_stats) list \<Rightarrow> event list" where
  "progress_events h [] = []"
| "progress_events h ((now, e) # xs) = BackendProgress h now e # progress_events h xs"

text \<open>The bytes of one sample: both counts, an absent one counting for nothing.\<close>

definition sample_bytes :: "transfer_stats \<Rightarrow> nat" where
  "sample_bytes e =
     (case cdnDownloaded e of None \<Rightarrow> 0 | Some n \<Rightarrow> n)
     + (case p2pDownloaded e of None \<Rightarrow> 0 | Some n \<Rightarrow> n)"

text \<open>
  The reading of the specification: the byte counts of all the samples reported so far,
  added up.
\<close>

definition reported_total :: "(real \<times> transfer_stats) list \<Rightarrow> nat" where
  "reported_total xs = sum_list (map (\<lambda>x. sample_bytes (snd x)) xs)"

text \<open>What the code stores: the bytes of the latest sample, or 0 before the first one.\<close>

definition latest_bytes :: "(real \<times> transfer_stats) list \<Rightarrow> nat" where
  "latest_bytes xs = (if xs = [] then 0 else sample_bytes (snd (last xs)))"

subsection \<open>Concrete inputs\<close>

definition wrapper0 :: wrapper where
  "wrapper0 = \<lparr>peerAgentModule = True, levels = [7], extractInfoFromXhrSetup = (\<lambda>x u. (Map.empty, False))\<rparr>"

definition frag0 :: frag where
  "frag0 = \<lparr>byteRangeStartOffset = Some 100, byteRangeEndOffset = Some 200, level = 0, sn = 3, start = 12\<rparr>"

definition frag1 :: frag where
  "frag1 = \<lparr>byteRangeStartOffset = None, byteRangeEndOffset = None, level = 0, sn = 4, start = 16\<rparr>"

definition call0 :: load_call where
  "call0 = \<lparr>arg_url = ''http://cdn/seg3.ts'', arg_responseType = ''arraybuffer'',
             arg_onSuccess = Some 1, arg_onError = Some 2, arg_onTimeout = Some 3,
             arg_timeout = 20000, arg_maxRetry = 2, arg_retryDelay = 1000,
             arg_onProgress = Some 4, arg_frag = Some frag0\<rparr>"

definition loaded0 :: loader where
  "loaded0 = state_of (load wrapper0 5 call0 (P2PLoader None))"



definition call1 :: load_call where
  "call1 = call0\<lparr>arg_url := ''http://cdn/seg4.ts'', arg_frag := Some frag1\<rparr>"

definition callBig :: load_call where
  "callBig = call0\<lparr>arg_retryDelay := 100000\<rparr>"

definition sample10 :: transfer_stats where
  "sample10 = \<lparr>cdnDownloaded = Some 10, p2pDownloaded = None, cdnDuration = 1, p2pDuration = 0\<rparr>"

definition sample20 :: transfer_stats where
  "sample20 = \<lparr>cdnDownloaded = Some 15, p2pDownloaded = Some 5, cdnDuration = 2, p2pDuration = 1\<rparr>"

definition call2 :: load_call where
  "call2 = call1\<lparr>arg_onSuccess := Some 11, arg_onError := Some 12, arg_onTimeout := Some 13,
                  arg_onProgress := Some 14\<rparr>"


definition sampleTenth :: transfer_stats where
  "sampleTenth =
     \<lparr>cdnDownloaded = None, p2pDownloaded = Some 1, cdnDuration = 0,
      p2pDuration = 3602879701896397 / 36028797018963968\<rparr>"

definition sampleNegative :: transfer_stats where
  "sampleNegative =
     \<lparr>cdnDownloaded = None, p2pDownloaded = Some 1, cdnDuration = 0, p2pDuration = - 5\<rparr>"

definition sample40 :: transfer_stats where
  "sample40 =
     \<lparr>cdnDownloaded = Some 10, p2pDownloaded = Some 30, cdnDuration = 8, p2pDuration = 32\<rparr>"

definition prepared0 :: loader where
  "prepared0 =
     (P2PLoader None)
       \<lparr>byteRange := Some ''100-200'', frag := Some frag0, url := ''http://cdn/seg3.ts'',
        responseType := ''arraybuffer'', onSuccess := Some 1, onProgress := Some 4,
        onTimeout := Some 3, onError := Some 2,
        stats := Some \<lparr>trequest = 5, retry = 0, tfirst = Undefined, loaded = None,
                        tload = None, aborted = False\<rparr>,
        timeout := 20000, maxRetry := 2, retryDelay := 1000\<rparr>"

subsection \<open>Observations\<close>

text \<open>The \<open>loaded\<close> field of the Stats that a call hands to the host.\<close>

fun call_loaded :: "host_call \<Rightarrow> nat option" where
  "call_loaded (OnSuccess cb d st) = loaded st"
| "call_loaded (OnProgress cb e st) = loaded st"
| "call_loaded (OnError cb status) = None"
| "call_loaded (OnTimeout cb st) = None"

text \<open>The callback and the payload of a call to a host's success callback.\<close>

fun success_payload :: "host_call \<Rightarrow> (callback \<times> segment_data) option" where
  "success_payload (OnSuccess cb d st) = Some (cb, d)"
| "success_payload (OnError cb status) = None"
| "success_payload (OnTimeout cb st) = None"
| "success_payload (OnProgress cb e st) = None"

subsection \<open>Auxiliary notions for the proofs\<close>

text \<open>The stored delay after \<open>n\<close> runs of the retry branch of \<open>loadError\<close>.\<close>

primrec backoff :: "nat \<Rightarrow> real \<Rightarrow> real" where
  "backoff 0 d = d"
| "backoff (Suc n) d = backoff n (min (2 * d) 64000)"

text \<open>
  An attempt is under way and can be retried: a handle is held, the Stats are not aborted,
  the fragment's level exists, and timer identities handed out so far are below the next one.
\<close>

definition attempting :: "wrapper \<Rightarrow> loader \<Rightarrow> bool" where
  "attempting w s \<longleftrightarrow>
     peerAgentLoader s \<noteq> None
     \<and> (\<exists>st. stats s = Some st \<and> \<not> aborted st)
     \<and> (\<exists>f. frag s = Some f \<and> level f < length (levels w))
     \<and> peerAgentModule w
     \<and> (\<forall>x\<in>set (timers s). fst x < next_timer s)
     \<and> (\<forall>t. requestTimeout s = Some t \<longrightarrow> t < next_timer s)"

text \<open>A retry is scheduled: no handle is held and the timer in \<open>retryTimeout\<close> is armed.\<close>

definition retry_pending :: "wrapper \<Rightarrow> loader \<Rightarrow> bool" where
  "retry_pending w s \<longleftrightarrow>
     peerAgentLoader s = None
     \<and> (\<exists>st. stats s = Some st \<and> \<not> aborted st)
     \<and> (\<exists>f. frag s = Some f \<and> level f < length (levels w))
     \<and> peerAgentModule w
     \<and> (\<forall>x\<in>set (timers s). fst x < next_timer s)
     \<and> (\<exists>t d. retryTimeout s = Some t \<and> (t, LoadInternalCb, d) \<in> set (timers s)
            \<and> (\<forall>x\<in>set (timers s). fst x = t \<longrightarrow> x = (t, LoadInternalCb, d)))"

subsection \<open>Executions\<close>

text \<open>
  The assumptions on the environment. The host calls \<open>load\<close> only on an instance that holds
  no handle and has no timer armed. The backend calls back only on behalf of a transfer that
  it was asked for and that has not yet had its terminal callback; with \<open>late\<close>, it may also
  call back for a transfer that was cancelled through its handle. A timer fires only while
  it is armed.
\<close>

fun enabled :: "bool \<Rightarrow> event \<Rightarrow> loader \<Rightarrow> bool" where
  "enabled late (Load now c) s = (peerAgentLoader s = None \<and> timers s = [])"
| "enabled late Abort s = True"
| "enabled late Destroy s = True"
| "enabled late (BackendSuccess h now now' d bs) s =
     (h \<in> set (live s) \<or> late \<and> h \<in> set (cancelled s))"
| "enabled late (BackendError h status) s =
     (h \<in> set (live s) \<or> late \<and> h \<in> set (cancelled s))"
| "enabled late (BackendProgress h now ev) s =
     (h \<in> set (live s) \<or> late \<and> h \<in> set (cancelled s))"
| "enabled late (TimerFires t) s = (t \<in> set (map fst (timers s)))"

fun admissible :: "bool \<Rightarrow> wrapper \<Rightarrow> event list \<Rightarrow> loader \<Rightarrow> bool" where
  "admissible late w [] s = True"
| "admissible late w (ev # evs) s =
     (enabled late ev s \<and> admissible late w evs (state_of (exec w ev s)))"

fun is_load :: "event \<Rightarrow> bool" where
  "is_load (Load now c) = True"
| "is_load ev = False"

text \<open>An event that comes from the backend or from a timer, not from the host.\<close>

fun is_callback :: "event \<Rightarrow> bool" where
  "is_callback (Load now c) = False"
| "is_callback Abort = False"
| "is_callback Destroy = False"
| "is_callback ev = True"

text \<open>The calls to the host's success and error callbacks.\<close>

fun is_terminal :: "host_call \<Rightarrow> bool" where
  "is_terminal (OnSuccess cb d st) = True"
| "is_terminal (OnError cb status) = True"
| "is_terminal c = False"

definition terminal_calls :: "loader \<Rightarrow> host_call list" where
  "terminal_calls s = filter is_terminal (calls s)"

text \<open>
  A wider environment. The host may call \<open>load\<close> at any time but while no handle is held
  and a timer is armed. The backend calls the success or the error hook for a transfer in
  flight, or for a cancelled transfer while the Stats are marked aborted, as they are from
  the \<open>abort\<close> that cancelled it to the next \<open>load\<close>; it calls the progress hook for any
  transfer in flight or cancelled. A timer fires only while it is armed.
\<close>

fun permitted :: "event \<Rightarrow> loader \<Rightarrow> bool" where
  "permitted (Load now c) s = (peerAgentLoader s \<noteq> None \<or> timers s = [])"
| "permitted Abort s = True"
| "permitted Destroy s = True"
| "permitted (BackendSuccess h now now' d bs) s =
     (h \<in> set (live s)
      \<or> h \<in> set (cancelled s) \<and> (case stats s of None \<Rightarrow> False | Some st \<Rightarrow> aborted st))"
| "permitted (BackendError h status) s =
     (h \<in> set (live s)
      \<or> h \<in> set (cancelled s) \<and> (case stats s of None \<Rightarrow> False | Some st \<Rightarrow> aborted st))"
| "permitted (BackendProgress h now ev) s = (h \<in> set (live s) \<or> h \<in> set (cancelled s))"
| "permitted (TimerFires t) s = (t \<in> set (map fst (timers s)))"



text \<open>
  The invariant of these executions. While a handle is held: its transfer is the only one
  in flight (or has ended in a callback that threw), the Stats are not aborted, and the only
  timer that can be armed is the deadline timer stored in \<open>requestTimeout\<close>. While no handle
  is held: no transfer is in flight, and the only timer that can be armed is the retry timer
  stored in \<open>retryTimeout\<close>, or the deadline timer stored in \<open>requestTimeout\<close> when a retry
  has armed it and has then found the backend module gone.
\<close>

definition consistent :: "loader \<Rightarrow> bool" where
  "consistent s \<longleftrightarrow>
     (case peerAgentLoader s of
        Some h \<Rightarrow>
          (live s = [h] \<or> live s = [])
          \<and> (case stats s of None \<Rightarrow> False | Some st \<Rightarrow> \<not> aborted st)
          \<and> (case timers s of
                [] \<Rightarrow> True
              | [(t, cb, d)] \<Rightarrow> cb = LoadTimeoutCb \<and> requestTimeout s = Some t
              | _ \<Rightarrow> False)
      | None \<Rightarrow>
          live s = []
          \<and> (case timers s of
                [] \<Rightarrow> True
              | [(t, cb, d)] \<Rightarrow>
                  (case cb of
                     LoadInternalCb \<Rightarrow>
                       retryTimeout s = Some t
                       \<and> (case stats s of None \<Rightarrow> False | Some st \<Rightarrow> \<not> aborted st)
                   | LoadTimeoutCb \<Rightarrow> requestTimeout s = Some t)
              | _ \<Rightarrow> False))"

text \<open>
  After an abort: nothing is held or armed, and either the Stats are marked aborted or no
  cancelled transfer is left that could still call back.
\<close>

definition quiet :: "loader \<Rightarrow> bool" where
  "quiet s \<longleftrightarrow>
     peerAgentLoader s = None \<and> timers s = [] \<and> live s = []
     \<and> (cancelled s = [] \<or> (case stats s of None \<Rightarrow> False | Some st \<Rightarrow> aborted st))"

text \<open>
  The invariant of one \<open>load\<close> that is not aborted, \<open>T\<close> being the terminal calls and \<open>n\<close>
  the number of requests made before it: the callbacks are there, the Stats are not aborted,
  the retry count is within the budget, one request has been issued for the first attempt
  and one for each retry that has started, and either an attempt is under way or a retry is
  scheduled, with no terminal call made yet, or nothing is left to happen and exactly one
  terminal call has been made.
\<close>

definition serving :: "wrapper \<Rightarrow> host_call list \<Rightarrow> nat \<Rightarrow> loader \<Rightarrow> bool" where
  "serving w T n s \<longleftrightarrow>
     (case stats s of
        None \<Rightarrow> False
      | Some st \<Rightarrow>
          \<not> aborted st \<and> retry st \<le> maxRetry s
          \<and> length (requests s)
              = n + retry st + (if peerAgentLoader s = None \<and> timers s \<noteq> [] then 0 else 1))
     \<and> onSuccess s \<noteq> None \<and> onError s \<noteq> None
     \<and> (case frag s of None \<Rightarrow> False | Some f \<Rightarrow> level f < length (levels w))
     \<and> peerAgentModule w
     \<and> (case requestTimeout s of None \<Rightarrow> True | Some t \<Rightarrow> t < next_timer s)
     \<and> (case peerAgentLoader s of
          Some h \<Rightarrow>
            live s = [h] \<and> terminal_calls s = T
            \<and> (case timers s of
                  [] \<Rightarrow> True
                | [(t, cb, d)] \<Rightarrow> cb = LoadTimeoutCb \<and> requestTimeout s = Some t
                | _ \<Rightarrow> False)
        | None \<Rightarrow>
            live s = []
            \<and> (case timers s of
                  [] \<Rightarrow> terminal_calls s \<noteq> [] \<and> butlast (terminal_calls s) = T
                | [(t, cb, d)] \<Rightarrow>
                    cb = LoadInternalCb \<and> retryTimeout s = Some t \<and> terminal_calls s = T
                | _ \<Rightarrow> False))"

section \<open>Properties\<close>

subsection \<open>Basic facts\<close>

lemma reset_eq:
  "reset cancelRetry s =
     s\<lparr>requestTimeout := None,
       retryTimeout := (if cancelRetry then None else retryTimeout s),
       peerAgentLoader := None,
       timers := filter (\<lambda>x. Some (fst x) \<noteq> requestTimeout s
                              \<and> (cancelRetry \<longrightarrow> Some (fst x) \<noteq> retryTimeout s)) (timers s)\<rparr>"
  by (cases "requestTimeout s"; cases "retryTimeout s")
     (auto simp: reset_def clearTimeout_def Let_def intro: filter_cong)

lemma find_fresh_snoc:
  "\<forall>x\<in>set xs. fst x \<noteq> n \<Longrightarrow> find (\<lambda>x. fst x = n) (filter P xs @ [(n, cb, d)]) = Some (n, cb, d)"
  by (induction xs) auto

lemmas method_defs = load_def loadInternal_def loadSuccess_def loadError_def loadProgress_def
  loadTimeout_def abort_def destroy_def fireTimer_def finished_def host_def setTimeout_def
  getSegment_def abortTransfer_def reset_eq

lemma P2PLoader_eq: "P2PLoader None =
       \<lparr>xhrSetup = None,
        requestTimeout = None, retryTimeout = None, peerAgentLoader = None,
        byteRange = None, frag = None, url = [], responseType = [],
        onSuccess = None, onProgress = None, onTimeout = None, onError = None,
        stats = None, timeout = 0, maxRetry = 0, retryDelay = 0,
        timers = [], next_timer = 1, live = [], cancelled = [], requests = [],
        next_handle = 1, calls = []\<rparr>"
  by (simp add: P2PLoader_def reset_eq)

lemma loaded0_eq:
  "loaded0 =
     \<lparr>xhrSetup = None, requestTimeout = Some 1, retryTimeout = None,
      peerAgentLoader = Some 1, byteRange = Some (showInt 100 @ ''-'' @ showInt 200),
      frag = Some frag0, url = ''http://cdn/seg3.ts'', responseType = ''arraybuffer'',
      onSuccess = Some 1, onProgress = Some 4, onTimeout = Some 3, onError = Some 2,
      stats = Some \<lparr>trequest = 5, retry = 0, tfirst = Null, loaded = Some 0,
                     tload = None, aborted = False\<rparr>,
      timeout = 20000, maxRetry = 2, retryDelay = 1000,
      timers = [(1, LoadTimeoutCb, 20000)], next_timer = 2, live = [1], cancelled = [],
      requests = [(1, \<lparr>req_url = ''http://cdn/seg3.ts'',
                       headers = [''Range'' \<mapsto> rangeHeader frag0],
                       withCredentials = False\<rparr>,
                   \<lparr>sv_sn = 3, sv_trackView = \<lparr>tv_level = 0, tv_urlId = 7\<rparr>, sv_time = 12\<rparr>)],
      next_handle = 2, calls = []\<rparr>"
  by (simp add: loaded0_def load_def call0_def wrapper0_def P2PLoader_def loadInternal_def
      reset_eq setTimeout_def getSegment_def frag0_def Let_def showInt_def)

lemma loaded0_fields:
  "stats loaded0 = Some \<lparr>trequest = 5, retry = 0, tfirst = Null, loaded = Some 0,
                          tload = None, aborted = False\<rparr>"
  "maxRetry loaded0 = 2" "retryDelay loaded0 = 1000" "timeout loaded0 = 20000"
  "requestTimeout loaded0 = Some 1" "retryTimeout loaded0 = None"
  "peerAgentLoader loaded0 = Some 1"
  "timers loaded0 = [(1, LoadTimeoutCb, 20000)]" "next_timer loaded0 = 2"
  "live loaded0 = [1]" "cancelled loaded0 = []" "next_handle loaded0 = 2" "calls loaded0 = []"
  "onSuccess loaded0 = Some 1" "onError loaded0 = Some 2" "onTimeout loaded0 = Some 3"
  "onProgress loaded0 = Some 4" "frag loaded0 = Some frag0"
  by (simp_all add: loaded0_eq)


subsection \<open>Rounding to a double\<close>

lemma round_even_cases:
  obtains f :: int where "of_int f \<le> y" "y < of_int f + 1"
    "round_even y = (if y - of_int f < 1 / 2 then f else if 1 / 2 < y - of_int f then f + 1
                     else if even f then f else f + 1)"
proof
  show "of_int \<lfloor>y\<rfloor> \<le> y" "y < of_int \<lfloor>y\<rfloor> + 1" by linarith+
  show "round_even y = (if y - of_int \<lfloor>y\<rfloor> < 1 / 2 then \<lfloor>y\<rfloor>
                        else if 1 / 2 < y - of_int \<lfloor>y\<rfloor> then \<lfloor>y\<rfloor> + 1
                        else if even \<lfloor>y\<rfloor> then \<lfloor>y\<rfloor> else \<lfloor>y\<rfloor> + 1)"
    by (simp add: round_even_def Let_def)
qed

lemma round_even_near: "\<bar>of_int (round_even y) - y\<bar> \<le> 1 / 2"
  by (rule round_even_cases [of y]) (auto simp: abs_if)

lemma round_even_pos: "1 \<le> y \<Longrightarrow> 0 < round_even y"
  by (rule round_even_cases [of y]) (auto split: if_splits)

lemma round_even_neg: "y \<le> - 1 \<Longrightarrow> round_even y < 0"
  by (rule round_even_cases [of y]) (auto split: if_splits)

lemma ulp_le:
  assumes "x \<noteq> 0"
  shows "2 powr (of_int \<lfloor>log 2 \<bar>x\<bar>\<rfloor> - 52) \<le> \<bar>x\<bar> / 2 ^ 52"
proof -
  have "of_int \<lfloor>log 2 \<bar>x\<bar>\<rfloor> - 52 \<le> log 2 \<bar>x\<bar> - 52" by simp
  then have "2 powr (of_int \<lfloor>log 2 \<bar>x\<bar>\<rfloor> - 52) \<le> 2 powr (log 2 \<bar>x\<bar> - 52)"
    by (simp only: powr_le_cancel_iff) 
  also have "\<dots> = \<bar>x\<bar> / 2 ^ 52"
  proof -
    have "(2::real) powr 52 = 2 ^ 52" using powr_realpow [of "2::real" 52] by simp
    with assms show ?thesis by (simp add: powr_diff)
  qed
  finally show ?thesis .
qed

lemma fl_unfold:
  "x \<noteq> 0 \<Longrightarrow> u = 2 powr (of_int \<lfloor>log 2 \<bar>x\<bar>\<rfloor> - 52) \<Longrightarrow> fl x = of_int (round_even (x / u)) * u"
  by (simp add: fl_def Let_def)

lemma fl_error: "\<bar>fl x - x\<bar> \<le> \<bar>x\<bar> / 2 ^ 53"
proof (cases "x = 0")
  case True
  then show ?thesis by (simp add: fl_def)
next
  case False
  define u :: real where "u = 2 powr (of_int \<lfloor>log 2 \<bar>x\<bar>\<rfloor> - 52)"
  have u: "0 < u" by (simp add: u_def)
  have f: "fl x = of_int (round_even (x / u)) * u" using False u_def by (rule fl_unfold)
  have "fl x - x = (of_int (round_even (x / u)) - x / u) * u"
    unfolding f using u by (simp add: algebra_simps)
  then have "\<bar>fl x - x\<bar> = \<bar>of_int (round_even (x / u)) - x / u\<bar> * u"
    using u by (simp add: abs_mult)
  also have "\<dots> \<le> (1 / 2) * u"
    using u round_even_near [of "x / u"] by (intro mult_right_mono) simp_all
  also have "\<dots> \<le> (1 / 2) * (\<bar>x\<bar> / 2 ^ 52)"
    using ulp_le [OF False] by (simp add: u_def)
  also have "\<dots> = \<bar>x\<bar> / 2 ^ 53" by simp
  finally show ?thesis .
qed

lemma fl_pos_iff: "0 < fl x \<longleftrightarrow> 0 < x"
proof (cases "x = 0")
  case True
  then show ?thesis by (simp add: fl_def)
next
  case False
  define u :: real where "u = 2 powr (of_int \<lfloor>log 2 \<bar>x\<bar>\<rfloor> - 52)"
  have u: "0 < u" by (simp add: u_def)
  have f: "fl x = of_int (round_even (x / u)) * u" using False u_def by (rule fl_unfold)
  have "u \<le> \<bar>x\<bar>"
  proof -
    have "u \<le> \<bar>x\<bar> / 2 ^ 52" unfolding u_def by (rule ulp_le [OF False])
    also have "\<dots> \<le> \<bar>x\<bar>" by (simp add: field_simps)
    finally show ?thesis .
  qed
  then have a: "1 \<le> \<bar>x\<bar> / u" using u by (simp add: field_simps)
  show ?thesis
  proof (cases "0 < x")
    case True
    with a have "1 \<le> x / u" by simp
    then have "0 < round_even (x / u)" by (rule round_even_pos)
    with u f True show ?thesis by simp
  next
    case neg: False
    with False have n: "x < 0" by simp
    with a have "x / u \<le> - 1" by (simp add: abs_if field_simps)
    then have "round_even (x / u) < 0" by (rule round_even_neg)
    then have "fl x < 0" unfolding f using u by (simp add: mult_neg_pos)
    with n show ?thesis by simp
  qed
qed

lemma fl_eq:
  assumes "2 powr of_int e \<le> \<bar>x\<bar>" "\<bar>x\<bar> < 2 powr (of_int e + 1)"
  shows "fl x = of_int (round_even (x / 2 powr (of_int e - 52))) * 2 powr (of_int e - 52)"
proof -
  have "0 < 2 powr real_of_int e" by simp
  with assms(1) have p: "0 < \<bar>x\<bar>" by linarith
  then have "\<lfloor>log 2 \<bar>x\<bar>\<rfloor> = e"
    using assms by (subst floor_log_eq_powr_iff) simp_all
  with p show ?thesis by (simp add: fl_def Let_def)
qed

lemma fl_ge1:
  assumes "2 ^ k \<le> \<bar>x\<bar>" "\<bar>x\<bar> < 2 * 2 ^ k"
  shows "fl x = of_int (round_even (x * 2 ^ 52 / 2 ^ k)) * 2 ^ k / 2 ^ 52"
proof -
  have r: "(2::real) powr real k = 2 ^ k" by (simp add: powr_realpow)
  have 1: "2 powr of_int (int k) \<le> \<bar>x\<bar>" using assms(1) r by simp
  have 2: "\<bar>x\<bar> < 2 powr (of_int (int k) + 1)"
    using assms(2) r by (simp add: powr_add)
  have "(2::real) powr 52 = 2 ^ 52" using powr_realpow [of "2::real" 52] by simp
  then have 3: "2 powr (of_int (int k) - 52) = (2::real) ^ k / 2 ^ 52"
    using r by (simp add: powr_diff)
  show ?thesis unfolding fl_eq [OF 1 2] 3 by simp
qed

lemma fl_lt1:
  assumes "1 \<le> \<bar>x\<bar> * 2 ^ k" "\<bar>x\<bar> * 2 ^ k < 2"
  shows "fl x = of_int (round_even (x * (2 ^ 52 * 2 ^ k))) / (2 ^ 52 * 2 ^ k)"
proof -
  have r: "(2::real) powr real k = 2 ^ k" by (simp add: powr_realpow)
  have m: "(2::real) powr (- real k) = 1 / 2 ^ k" using r by (simp add: powr_minus_divide)
  have "1 / 2 ^ k \<le> \<bar>x\<bar>" using assms(1) by (simp add: field_simps)
  then have 1: "2 powr of_int (- int k) \<le> \<bar>x\<bar>" by (simp add: m)
  have "\<bar>x\<bar> < 2 * (1 / 2 ^ k)" using assms(2) by (simp add: field_simps)
  moreover have "(2::real) powr (1 - real k) = 2 * (1 / 2 ^ k)" by (simp add: powr_diff r)
  ultimately have 2: "\<bar>x\<bar> < 2 powr (of_int (- int k) + 1)" by simp
  have "(2::real) powr 52 = 2 ^ 52" using powr_realpow [of "2::real" 52] by simp
  then have 3: "2 powr (of_int (- int k) - 52) = 1 / ((2::real) ^ 52 * 2 ^ k)"
    using m by (simp add: powr_diff)
  show ?thesis unfolding fl_eq [OF 1 2] 3 by simp
qed

subsection \<open>Timing of a successful transfer\<close>

lemma fl_40: "fl 40 = 40"
  by (subst fl_ge1 [where k = 5]) (simp_all add: round_even_def)

lemma fl_60: "fl 60 = 60"
  by (subst fl_ge1 [where k = 5]) (simp_all add: round_even_def)

lemma fl_70: "fl 70 = 70"
  by (subst fl_ge1 [where k = 6]) (simp_all add: round_even_def)

lemma fl_tenth:
  "fl (3602879701896397 / 36028797018963968) = 3602879701896397 / 36028797018963968"
  by (subst fl_lt1 [where k = 4]) (simp_all add: round_even_def Let_def)

lemma fl_request_tenth:
  "fl (201 / 2 - 3602879701896397 / 36028797018963968) = 3532510957718733 / 35184372088832"
  by (subst fl_ge1 [where k = 6]) (simp_all add: round_even_def Let_def)

lemma fl_first_tenth:
  "fl (3532510957718733 / 35184372088832 + 3602879701896397 / 72057594037927936)
     = 7068540352646349 / 70368744177664"
  by (subst fl_ge1 [where k = 6]) (simp_all add: round_even_def Let_def)

lemma fl_minus5: "fl (- 5) = - 5"
  by (subst fl_ge1 [where k = 2]) (simp_all add: round_even_def Let_def)

lemma sample40_fields:
  "p2pDuration sample40 + cdnDuration sample40 = 40" "p2pDownloaded sample40 = Some 30"
  by (simp_all add: sample40_def)

lemma loadSuccess_rounded:
  assumes "stats s = Some st" "\<not> aborted st" "onSuccess s = Some cb"
    and "fl (p2pDuration bs + cdnDuration bs) = D" "0 < D" "p2pDownloaded bs = Some n" "0 < n"
    and "fl (now - D) = r" "fl (r + min (D / 2) 10) = t"
  shows "stats (state_of (loadSuccess now now' d bs s))
           = Some (st\<lparr>trequest := r, tfirst := Val t, tload := Some now'\<rparr>)"
  using assms by (simp add: loadSuccess_def Let_def reset_eq host_def)

lemma loadSuccess_tenth:
  "stats (state_of (loadSuccess (201 / 2) (201 / 2) ''d'' sampleTenth loaded0))
     = Some \<lparr>trequest = 3532510957718733 / 35184372088832, retry = 0,
             tfirst = Val (7068540352646349 / 70368744177664), loaded = Some 0,
             tload = Some (201 / 2), aborted = False\<rparr>"
proof -
  let ?st = "\<lparr>trequest = 5, retry = 0, tfirst = Null, loaded = Some 0,
                          tload = None, aborted = False\<rparr>"
  have h: "stats loaded0 = Some ?st" "\<not> aborted ?st" "onSuccess loaded0 = Some 1"
    by (simp_all add: loaded0_fields)
  have 1: "fl (p2pDuration sampleTenth + cdnDuration sampleTenth)
             = 3602879701896397 / 36028797018963968"
    using fl_tenth by (simp add: sampleTenth_def)
  have 2: "min (3602879701896397 / 36028797018963968 / 2) (10::real)
             = 3602879701896397 / 72057594037927936"
    by simp
  have 3: "p2pDownloaded sampleTenth = Some 1" by (simp add: sampleTenth_def)
  have 4: "fl (3532510957718733 / 35184372088832
               + min (3602879701896397 / 36028797018963968 / 2) 10)
             = 7068540352646349 / 70368744177664"
    unfolding 2 by (rule fl_first_tenth)
  have "stats (state_of (loadSuccess (201 / 2) (201 / 2) ''d'' sampleTenth loaded0))
          = Some (?st\<lparr>trequest := 3532510957718733 / 35184372088832,
                       tfirst := Val (7068540352646349 / 70368744177664),
                       tload := Some (201 / 2)\<rparr>)"
    by (rule loadSuccess_rounded [OF h 1 _ 3 _ fl_request_tenth 4]) simp_all
  then show ?thesis by simp
qed

lemma loadSuccess_negative:
  "stats (state_of (loadSuccess 100 100 ''d'' sampleNegative loaded0))
     = Some \<lparr>trequest = 5, retry = 0, tfirst = Null, loaded = Some 0, tload = Some 100,
             aborted = False\<rparr>"
proof -
  have 1: "fl (p2pDuration sampleNegative + cdnDuration sampleNegative) = - 5"
    using fl_minus5 by (simp add: sampleNegative_def)
  show ?thesis
    unfolding loadSuccess_def Let_def 1
    by (simp add: loaded0_fields reset_eq host_def)
qed

text \<open>
  Claim C4, as stated, fails on two counts. First, the difference and the sum are those of
  doubles. At the clock reading \<open>100.5\<close>, with a peer-sourced byte and the combined duration
  \<open>0.1\<close> (the double \<open>3602879701896397 / 2 ^ 55\<close>), the host receives
  \<open>trequest = 3532510957718733 / 2 ^ 45\<close>, which is not \<open>100.5\<close> minus the duration, and
  \<open>tfirst = 7068540352646349 / 2 ^ 46\<close>; the difference of the two is
  \<open>3518437208883 / 2 ^ 46\<close>, about \<open>0.04999999999999716\<close>, and not half the duration.
  Second, the source tests the combined duration with \<^verbatim>\<open>> 0\<close>, not with \<^verbatim>\<open>!== 0\<close>: with the
  combined duration \<open>-5\<close>, which is not zero, and a peer-sourced byte, \<open>trequest\<close> and
  \<open>tfirst\<close> stay as the attempt left them.
\<close>

theorem loadSuccess_timing_counterexample:
  "stats (state_of (loadSuccess (201 / 2) (201 / 2) ''d'' sampleTenth loaded0))
     = Some \<lparr>trequest = 3532510957718733 / 35184372088832, retry = 0,
             tfirst = Val (7068540352646349 / 70368744177664), loaded = Some 0,
             tload = Some (201 / 2), aborted = False\<rparr>
   \<and> 7068540352646349 / 70368744177664 - 3532510957718733 / 35184372088832
       \<noteq> min ((p2pDuration sampleTenth + cdnDuration sampleTenth) / 2) (10::real)
   \<and> p2pDuration sampleNegative + cdnDuration sampleNegative \<noteq> 0
   \<and> p2pDownloaded sampleNegative = Some 1
   \<and> stats (state_of (loadSuccess 100 100 ''d'' sampleNegative loaded0))
     = Some \<lparr>trequest = 5, retry = 0, tfirst = Null, loaded = Some 0, tload = Some 100,
             aborted = False\<rparr>"
  unfolding loadSuccess_tenth loadSuccess_negative
  by (simp add: sampleTenth_def sampleNegative_def)

text \<open>
  Claim C4, amended. A success callback reaches the host when the aborted flag is not set.
  Let the combined duration be the double sum of the two durations reported by the backend.
  If it is greater than zero and the peer-sourced byte count is present and greater than
  zero, the Stats handed to the host's success callback have \<open>trequest\<close> equal to the
  double difference of the clock reading and the combined duration, and \<open>tfirst\<close> equal to
  the double sum of \<open>trequest\<close> and \<open>min (combined / 2) 10\<close>. So \<open>trequest\<close> differs from
  the exact difference by at most the magnitude of that difference divided by \<open>2 ^ 53\<close>,
  and \<open>tfirst - trequest\<close> differs from \<open>min (combined / 2) 10\<close> by at most the magnitude
  of the exact sum divided by \<open>2 ^ 53\<close>. Otherwise \<open>trequest\<close> and \<open>tfirst\<close> are as the
  attempt left them. In both cases \<open>tload\<close> is the clock reading taken at the end of the
  callback. The source reads the clock twice in this callback, so the two readings are
  distinct parameters here.
\<close>

theorem loadSuccess_timing:
  assumes "stats s = Some st" "\<not> aborted st" "onSuccess s = Some cb"
  shows "\<exists>s' st'. loadSuccess now now' d bs s = Inr s'
           \<and> calls s' = calls s @ [OnSuccess cb d st'] \<and> stats s' = Some st'
           \<and> tload st' = Some now'
           \<and> (if 0 < p2pDuration bs + cdnDuration bs
                  \<and> (\<exists>n. p2pDownloaded bs = Some n \<and> 0 < n)
               then \<exists>t. trequest st' = fl (now - fl (p2pDuration bs + cdnDuration bs))
                      \<and> tfirst st' = Val t
                      \<and> t = fl (trequest st' + min (fl (p2pDuration bs + cdnDuration bs) / 2) 10)
                      \<and> \<bar>trequest st' - (now - fl (p2pDuration bs + cdnDuration bs))\<bar>
                          \<le> \<bar>now - fl (p2pDuration bs + cdnDuration bs)\<bar> / 2 ^ 53
                      \<and> \<bar>t - trequest st' - min (fl (p2pDuration bs + cdnDuration bs) / 2) 10\<bar>
                          \<le> \<bar>trequest st' + min (fl (p2pDuration bs + cdnDuration bs) / 2) 10\<bar>
                               / 2 ^ 53
               else trequest st' = trequest st \<and> tfirst st' = tfirst st)"
proof -
  define D where "D = fl (p2pDuration bs + cdnDuration bs)"
  define L where "L = min (D / 2) 10"
  define r where "r = fl (now - D)"
  define t where "t = fl (r + L)"
  define c where "c \<longleftrightarrow> 0 < p2pDuration bs + cdnDuration bs \<and> (\<exists>n. p2pDownloaded bs = Some n \<and> 0 < n)"
  define st' where "st' = (if c then st\<lparr>trequest := r, tfirst := Val t\<rparr> else st)\<lparr>tload := Some now'\<rparr>"
  have c': "(0 < D \<and> (case p2pDownloaded bs of None \<Rightarrow> False | Some n \<Rightarrow> 0 < n)) = c"
    unfolding c_def D_def by (auto simp: fl_pos_iff split: option.splits)
  have e: "loadSuccess now now' d bs s = Inr (reset True (host (OnSuccess cb d st') (s\<lparr>stats := Some st'\<rparr>)))"
    using assms c'
    by (simp add: loadSuccess_def Let_def D_def [symmetric] L_def [symmetric] r_def [symmetric]
        t_def [symmetric] st'_def)
  have 1: "\<bar>r - (now - D)\<bar> \<le> \<bar>now - D\<bar> / 2 ^ 53" unfolding r_def by (rule fl_error)
  have "\<bar>t - (r + L)\<bar> \<le> \<bar>r + L\<bar> / 2 ^ 53" unfolding t_def by (rule fl_error)
  then have 2: "\<bar>t - r - L\<bar> \<le> \<bar>r + L\<bar> / 2 ^ 53" by (simp add: algebra_simps)
  have 3: "if c then trequest st' = r \<and> tfirst st' = Val t
            else trequest st' = trequest st \<and> tfirst st' = tfirst st"
    by (simp add: st'_def)
  have 4: "tload st' = Some now'" by (simp add: st'_def)
  show ?thesis
    unfolding e c_def [symmetric] D_def [symmetric] L_def [symmetric]
    using 1 2 3 4
    by (intro exI [of _ "reset True (host (OnSuccess cb d st') (s\<lparr>stats := Some st'\<rparr>))"]
          exI [of _ st'])
       (auto simp: reset_eq host_def r_def t_def)
qed

theorem loadSuccess_timing_witness:
  "stats loaded0 = Some \<lparr>trequest = 5, retry = 0, tfirst = Null, loaded = Some 0,
                          tload = None, aborted = False\<rparr>
   \<and> onSuccess loaded0 = Some 1
   \<and> p2pDuration sample40 + cdnDuration sample40 = 40
   \<and> p2pDownloaded sample40 = Some 30
   \<and> (\<exists>s' st'.
        loadSuccess 100 101 ''data'' sample40 loaded0 = Inr s'
        \<and> calls s' = [OnSuccess 1 ''data'' st'] \<and> tload st' = Some 101
        \<and> trequest st' = 60 \<and> tfirst st' = Val 70)"
proof -
  let ?st = "\<lparr>trequest = 5, retry = 0, tfirst = Null, loaded = Some 0,
                          tload = None, aborted = False\<rparr>"
  have h: "stats loaded0 = Some ?st" "\<not> aborted ?st" "onSuccess loaded0 = Some 1"
    by (simp_all add: loaded0_fields)
  from loadSuccess_timing [OF h, of 100 101 "''data''" sample40]
  obtain s' st' t where a: "loadSuccess 100 101 ''data'' sample40 loaded0 = Inr s'"
     "calls s' = calls loaded0 @ [OnSuccess 1 ''data'' st']" "tload st' = Some 101"
     "trequest st' = 60" "tfirst st' = Val t" "t = fl (trequest st' + 10)"
    by (auto simp: sample40_fields fl_40 fl_60)
  then have "tfirst st' = Val 70" by (simp add: fl_70)
  with a h show ?thesis by (auto simp: loaded0_fields sample40_fields)
qed

subsection \<open>The frame of \<open>reset\<close>\<close>

text \<open>
  Claim C7. \<open>reset cancelRetry\<close> clears the deadline timer and the backend handle in every
  case, clears the retry-delay timer exactly when \<open>cancelRetry\<close> holds, and changes no other
  field. Consequently, when \<open>loadError\<close> schedules a retry (timer identities being fresh), the
  timer it armed is still armed after its \<open>reset(false)\<close>, with the delay stored before the
  doubling, and firing it runs \<open>loadInternal\<close>.
\<close>

theorem reset_frame:
  "reset cancelRetry s =
     s\<lparr>requestTimeout := None,
       retryTimeout := (if cancelRetry then None else retryTimeout s),
       peerAgentLoader := None,
       timers := filter (\<lambda>x. Some (fst x) \<noteq> requestTimeout s
                              \<and> (cancelRetry \<longrightarrow> Some (fst x) \<noteq> retryTimeout s)) (timers s)\<rparr>
   \<and> (stats s = Some st \<and> \<not> aborted st \<and> retry st < maxRetry s
        \<and> requestTimeout s \<noteq> Some (next_timer s)
        \<and> (\<forall>x\<in>set (timers s). fst x \<noteq> next_timer s) \<longrightarrow>
      (\<exists>s'. loadError status s = Inr s'
         \<and> retryTimeout s' = Some (next_timer s)
         \<and> (next_timer s, LoadInternalCb, retryDelay s) \<in> set (timers s')
         \<and> requestTimeout s' = None \<and> peerAgentLoader s' = None
         \<and> fireTimer w (next_timer s) s' =
             loadInternal w (s'\<lparr>timers := filter (\<lambda>x. fst x \<noteq> next_timer s) (timers s')\<rparr>)))"
  by (auto simp: reset_eq loadError_def setTimeout_def Let_def fireTimer_def find_fresh_snoc)

theorem reset_frame_witness:
  "stats loaded0 = Some \<lparr>trequest = 5, retry = 0, tfirst = Null, loaded = Some 0,
                          tload = None, aborted = False\<rparr>
   \<and> retry \<lparr>trequest = 5, retry = 0, tfirst = Null, loaded = Some 0,
             tload = None, aborted = False\<rparr> < maxRetry loaded0
   \<and> requestTimeout loaded0 \<noteq> Some (next_timer loaded0)
   \<and> timers loaded0 = [(1, LoadTimeoutCb, 20000)] \<and> next_timer loaded0 = 2
   \<and> (\<exists>s'. loadError 503 loaded0 = Inr s'
         \<and> retryTimeout s' = Some 2
         \<and> (2, LoadInternalCb, 1000) \<in> set (timers s')
         \<and> requestTimeout s' = None \<and> peerAgentLoader s' = None)"
  using reset_frame [of False loaded0
      "\<lparr>trequest = 5, retry = 0, tfirst = Null, loaded = Some 0, tload = None, aborted = False\<rparr>"
      503 wrapper0]
  by (auto simp: loaded0_fields)

subsection \<open>Preconditions of \<open>load\<close>\<close>

text \<open>
  Claim C9. A \<open>load\<close> call without a progress callback, without a fragment, or made while
  the backend module is missing throws at once, and leaves the instance and its environment
  as they were: no timer is armed and no transfer is issued.
\<close>

theorem load_precondition:
  assumes "arg_onProgress c = None \<or> arg_frag c = None \<or> \<not> peerAgentModule w"
  shows "load w now c s =
           Inl (if arg_onProgress c = None then ProgressCallbackMissing
                else if arg_frag c = None then FragmentMissing else PeerAgentMissing, s)"
  using assms by (auto simp: load_def split: option.splits)

theorem load_precondition_witness:
  "arg_onProgress (call0\<lparr>arg_onProgress := None\<rparr>) = None
   \<and> load wrapper0 5 (call0\<lparr>arg_onProgress := None\<rparr>) (P2PLoader None)
       = Inl (ProgressCallbackMissing, P2PLoader None)"
  using load_precondition [of "call0\<lparr>arg_onProgress := None\<rparr>" wrapper0 5 "P2PLoader None"]
  by simp

text \<open>
  Claim C10. A \<open>load\<close> call that passes its preconditions while a backend handle is live
  throws from the consistency check of \<open>loadInternal\<close>. It arms no timer and issues no
  transfer, but the instance keeps what \<open>load\<close> assigned before the throw: the fragment, url,
  response type, callbacks, timeout and retry parameters of the new call, and a fresh Stats
  record with \<open>retry = 0\<close> and the aborted flag cleared.
\<close>

theorem load_while_live:
  assumes "peerAgentLoader s = Some h" "arg_onProgress c \<noteq> None" "arg_frag c = Some f"
    "peerAgentModule w"
  shows "\<exists>s'. load w now c s = Inl (NotResetCorrectly, s')
           \<and> timers s' = timers s \<and> next_timer s' = next_timer s
           \<and> requests s' = requests s \<and> live s' = live s
           \<and> requestTimeout s' = requestTimeout s \<and> retryTimeout s' = retryTimeout s
           \<and> peerAgentLoader s' = Some h \<and> calls s' = calls s
           \<and> frag s' = Some f \<and> url s' = arg_url c \<and> responseType s' = arg_responseType c
           \<and> onSuccess s' = arg_onSuccess c \<and> onError s' = arg_onError c
           \<and> onTimeout s' = arg_onTimeout c \<and> onProgress s' = arg_onProgress c
           \<and> timeout s' = arg_timeout c \<and> maxRetry s' = arg_maxRetry c
           \<and> retryDelay s' = arg_retryDelay c
           \<and> stats s' = Some \<lparr>trequest = now, retry = 0, tfirst = Undefined, loaded = None,
                               tload = None, aborted = False\<rparr>"
  using assms by (auto simp: load_def loadInternal_def split: option.splits)

theorem load_while_live_witness:
  "peerAgentLoader loaded0 = Some 1 \<and> arg_onProgress call0 \<noteq> None
   \<and> arg_frag call0 = Some frag0 \<and> peerAgentModule wrapper0
   \<and> (\<exists>s'. load wrapper0 9 call0 loaded0 = Inl (NotResetCorrectly, s')
         \<and> timers s' = timers loaded0 \<and> requests s' = requests loaded0
         \<and> stats s' = Some \<lparr>trequest = 9, retry = 0, tfirst = Undefined, loaded = None,
                             tload = None, aborted = False\<rparr>)"
proof -
  have h: "peerAgentLoader loaded0 = Some 1" "arg_onProgress call0 \<noteq> None"
    "arg_frag call0 = Some frag0" "peerAgentModule wrapper0"
    by (simp_all add: loaded0_fields call0_def wrapper0_def)
  from load_while_live [OF h, of 9] h show ?thesis by blast
qed

subsection \<open>Bytes loaded\<close>

lemma loadProgress_step:
  assumes "stats s = Some st" "onProgress s = Some cb"
  shows "\<exists>st'. loadProgress now e s = Inr (s\<lparr>stats := Some st', calls := calls s @ [OnProgress cb e st']\<rparr>)
           \<and> loaded st' = Some (sample_bytes e) \<and> aborted st' = aborted st \<and> retry st' = retry st"
  using assms
  by (auto simp: loadProgress_def host_def sample_bytes_def Let_def split: option.splits)

lemma run_progress:
  assumes "stats s = Some st" "onProgress s = Some cb"
  shows "\<exists>st'. stats (run w (progress_events h xs) s) = Some st'
           \<and> loaded st' = (if xs = [] then loaded st else Some (latest_bytes xs))
           \<and> aborted st' = aborted st
           \<and> onProgress (run w (progress_events h xs) s) = Some cb
           \<and> onSuccess (run w (progress_events h xs) s) = onSuccess s
           \<and> map call_loaded (calls (run w (progress_events h xs) s))
               = map call_loaded (calls s) @ map (\<lambda>x. Some (sample_bytes (snd x))) xs"
  using assms
proof (induction xs arbitrary: s st)
  case Nil
  then show ?case by simp
next
  case (Cons x xs)
  obtain now e where x: "x = (now, e)" by (cases x)
  from loadProgress_step [OF Cons.prems, of now e]
  obtain st1 where 1: "loadProgress now e s = Inr (s\<lparr>stats := Some st1, calls := calls s @ [OnProgress cb e st1]\<rparr>)"
      "loaded st1 = Some (sample_bytes e)" "aborted st1 = aborted st"
    by blast
  let ?s1 = "s\<lparr>stats := Some st1, calls := calls s @ [OnProgress cb e st1]\<rparr>"
  have "stats ?s1 = Some st1" "onProgress ?s1 = Some cb" using Cons.prems by simp_all
  from Cons.IH [OF this] 1 x show ?case
    by (auto simp: latest_bytes_def)
qed

lemma loadInternal_loaded:
  "loadInternal w s0 = Inr s \<Longrightarrow> \<exists>st. stats s = Some st \<and> loaded st = Some 0
     \<and> onProgress s = onProgress s0 \<and> onSuccess s = onSuccess s0 \<and> calls s = calls s0"
  by (auto simp: loadInternal_def setTimeout_def getSegment_def Let_def
      split: option.splits if_splits prod.splits)

lemma loadSuccess_loaded:
  "stats s = Some st \<Longrightarrow> \<not> aborted st \<Longrightarrow> onSuccess s = Some cb \<Longrightarrow>
   \<exists>st'. calls (state_of (loadSuccess now now' d bs s)) = calls s @ [OnSuccess cb d st']
      \<and> loaded st' = loaded st"
  by (auto simp: loadSuccess_def host_def reset_eq Let_def)

text \<open>
  Claim C5, as stated, fails: \<open>loadProgress\<close> starts from 0 at every sample and stores the
  two counts of that sample only. After the samples (10, absent) and (15, 5) the host has
  been handed \<open>loaded = 10\<close> and then \<open>loaded = 20\<close>, while the counts reported so far add up
  to 30.
\<close>

theorem loaded_not_cumulative_counterexample:
  "map call_loaded (calls (run wrapper0 (progress_events 1 [(6, sample10), (7, sample20)]) loaded0))
     = [Some 10, Some 20]
   \<and> reported_total [(6, sample10), (7, sample20)] = 30"
  by (simp add: loaded0_eq method_defs sample10_def sample20_def reported_total_def
      sample_bytes_def Let_def)

text \<open>
  Claim C5, amended. During an attempt, the \<open>loaded\<close> field handed to each progress callback
  is the sum of the peer-sourced and origin-sourced byte counts of that sample alone (an
  absent count counting as zero); the stored value, which a success callback hands on
  unchanged, is that of the latest sample of the attempt, or 0 when there was none.
\<close>

theorem loaded_is_latest_sample:
  assumes "loadInternal w s0 = Inr s" "onProgress s0 = Some cb"
  shows "\<exists>st'. stats (run w (progress_events h xs) s) = Some st'
           \<and> loaded st' = Some (latest_bytes xs)
           \<and> map call_loaded (calls (run w (progress_events h xs) s))
               = map call_loaded (calls s) @ map (\<lambda>x. Some (sample_bytes (snd x))) xs
           \<and> (\<not> aborted st' \<and> onSuccess s0 = Some cb' \<longrightarrow>
               (\<exists>st''. calls (state_of (loadSuccess now now' d bs (run w (progress_events h xs) s)))
                         = calls (run w (progress_events h xs) s) @ [OnSuccess cb' d st'']
                      \<and> loaded st'' = Some (latest_bytes xs)))"
proof -
  from loadInternal_loaded [OF assms(1)] obtain st where
    st: "stats s = Some st" "loaded st = Some 0" "onProgress s = onProgress s0"
      "onSuccess s = onSuccess s0"
    by blast
  with assms have p: "onProgress s = Some cb" by simp
  from run_progress [OF st(1) p, of w h xs] obtain st' where
    r: "stats (run w (progress_events h xs) s) = Some st'"
      "loaded st' = (if xs = [] then loaded st else Some (latest_bytes xs))"
      "onSuccess (run w (progress_events h xs) s) = onSuccess s"
      "map call_loaded (calls (run w (progress_events h xs) s))
               = map call_loaded (calls s) @ map (\<lambda>x. Some (sample_bytes (snd x))) xs"
    by blast
  have l: "loaded st' = Some (latest_bytes xs)"
    using r(2) st(2) by (simp add: latest_bytes_def)
  have "\<exists>st''. calls (state_of (loadSuccess now now' d bs (run w (progress_events h xs) s)))
                         = calls (run w (progress_events h xs) s) @ [OnSuccess cb' d st'']
                      \<and> loaded st'' = Some (latest_bytes xs)"
    if a: "\<not> aborted st' \<and> onSuccess s0 = Some cb'"
  proof -
    from a have "onSuccess (run w (progress_events h xs) s) = Some cb'" using r(3) st(4) by simp
    from loadSuccess_loaded [OF r(1) _ this, of now now' d bs] a l
    show ?thesis by auto
  qed
  with r(1,4) l show ?thesis by blast
qed

lemma loadInternal_prepared0: "loadInternal wrapper0 prepared0 = Inr loaded0"
  by (simp add: loaded0_eq prepared0_def P2PLoader_eq wrapper0_def frag0_def loadInternal_def
      setTimeout_def getSegment_def Let_def showInt_def showNat.simps digit_def)

theorem loaded_is_latest_sample_witness:
  "loadInternal wrapper0 prepared0 = Inr loaded0 \<and> onProgress prepared0 = Some 4
   \<and> onSuccess prepared0 = Some 1
   \<and> (\<exists>st'. stats (run wrapper0 (progress_events 1 [(6, sample10), (7, sample20)]) loaded0)
              = Some st'
         \<and> loaded st' = Some 20)"
proof -
  have h: "loadInternal wrapper0 prepared0 = Inr loaded0" "onProgress prepared0 = Some 4"
    by (rule loadInternal_prepared0) (simp add: prepared0_def)
  have b: "latest_bytes [(6, sample10), (7, sample20)] = 20"
    by (simp add: latest_bytes_def sample_bytes_def sample20_def)
  from loaded_is_latest_sample [OF h, of 1 "[(6, sample10), (7, sample20)]" 1 8 9 "''d''" sample20]
  show ?thesis using h b by (auto simp: prepared0_def)
qed

subsection \<open>Retry with backoff\<close>

lemma backoff_closed: "backoff (Suc n) d = min (2 ^ Suc n * d) 64000"
proof (induction n arbitrary: d)
  case 0
  then show ?case by simp
next
  case (Suc n)
  have "backoff (Suc (Suc n)) d = backoff (Suc n) (min (2 * d) 64000)" by simp
  also have "\<dots> = min (2 ^ Suc n * min (2 * d) 64000) 64000" by (rule Suc.IH)
  also have "\<dots> = min (2 ^ Suc (Suc n) * d) 64000"
  proof -
    define p :: real where "p = 2 ^ Suc n"
    have p: "1 \<le> p" unfolding p_def by (rule one_le_power) simp
    have q: "2 ^ Suc (Suc n) = 2 * p" by (simp add: p_def)
    have "min (p * min (2 * d) 64000) 64000 = min (2 * p * d) 64000"
    proof (cases "2 * d \<le> 64000")
      case True
      then show ?thesis by (simp add: min_def mult.assoc mult.left_commute)
    next
      case False
      then have d: "64000 < 2 * d" by simp
      have "1 * d \<le> p * d"
        by (rule mult_right_mono) (use p d in simp_all)
      moreover have "2 * p * d = 2 * (p * d)" by simp
      ultimately have "64000 < 2 * p * d" using d by linarith
      moreover have "64000 \<le> p * 64000" using p by simp
      ultimately show ?thesis using False by (simp add: min_def)
    qed
    then show ?thesis by (simp only: q p_def [symmetric])
  qed
  finally show ?case .
qed

lemma find_unique:
  "(t, v) \<in> set xs \<Longrightarrow> \<forall>y\<in>set xs. fst y = t \<longrightarrow> y = (t, v) \<Longrightarrow>
   find (\<lambda>y. fst y = t) xs = Some (t, v)"
proof (induction xs)
  case Nil
  then show ?case by simp
next
  case (Cons a xs)
  show ?case
  proof (cases "fst a = t")
    case True
    with Cons.prems(2) have "a = (t, v)" by simp
    then show ?thesis by simp
  next
    case False
    with Cons.prems(1) have "(t, v) \<in> set xs" by auto
    moreover from Cons.prems(2) have "\<forall>y\<in>set xs. fst y = t \<longrightarrow> y = (t, v)" by simp
    ultimately have "find (\<lambda>y. fst y = t) xs = Some (t, v)" by (rule Cons.IH)
    with False show ?thesis by simp
  qed
qed

lemma fresh_lt: "\<forall>x\<in>set xs. fst x < n \<Longrightarrow> (a, b) \<in> set xs \<Longrightarrow> a < n"
  by fastforce

lemma load_attempting:
  assumes "load w now c s0 = Inr s" "\<forall>x\<in>set (timers s0). fst x < next_timer s0"
  shows "attempting w s \<and> (\<exists>st. stats s = Some st \<and> retry st = 0)
         \<and> retryDelay s = arg_retryDelay c \<and> maxRetry s = arg_maxRetry c"
  using assms
  by (auto simp: load_def loadInternal_def setTimeout_def getSegment_def Let_def attempting_def
        less_Suc_eq
      split: option.splits if_splits prod.splits dest: fresh_lt)

lemma fail_step:
  assumes "attempting w s" "stats s = Some st" "retry st < maxRetry s"
  shows "stats (state_of (transferFails w e s)) = Some (st\<lparr>retry := Suc (retry st)\<rparr>)
       \<and> retryDelay (state_of (transferFails w e s)) = min (2 * retryDelay s) 64000
       \<and> maxRetry (state_of (transferFails w e s)) = maxRetry s
       \<and> retryTimeout (state_of (transferFails w e s)) = Some (next_timer s)
       \<and> (next_timer s, LoadInternalCb, retryDelay s) \<in> set (timers (state_of (transferFails w e s)))
       \<and> retry_pending w (state_of (transferFails w e s))"
proof -
  from assms obtain h where h: "peerAgentLoader s = Some h" and a: "\<not> aborted st"
    and fr: "\<forall>x\<in>set (timers s). fst x < next_timer s"
            "requestTimeout s \<noteq> Some (next_timer s)"
    by (auto simp: attempting_def)
  have e: "state_of (transferFails w e s) =
     s\<lparr>live := removeAll h (live s), cancelled := removeAll h (cancelled s),
       timers := filter (\<lambda>x. Some (fst x) \<noteq> requestTimeout s) (timers s)
                 @ [(next_timer s, LoadInternalCb, retryDelay s)],
       next_timer := Suc (next_timer s),
       retryTimeout := Some (next_timer s),
       retryDelay := min (2 * retryDelay s) 64000,
       stats := Some (st\<lparr>retry := Suc (retry st)\<rparr>),
       requestTimeout := None, peerAgentLoader := None\<rparr>"
    using h a assms(2,3) fr(2)
    by (simp add: transferFails_def loadError_def finished_def setTimeout_def reset_eq Let_def)
  have u: "\<forall>x\<in>set (timers s). fst x \<noteq> next_timer s" using fr(1) by fastforce
  show ?thesis
    unfolding e using assms(1) a fr u
    by (auto simp: retry_pending_def attempting_def less_Suc_eq dest: fresh_lt)
qed


lemma retry_step:
  assumes "retry_pending w s" "stats s = Some st"
  shows "attempting w (state_of (retryFires w s))
       \<and> (\<exists>st'. stats (state_of (retryFires w s)) = Some st' \<and> retry st' = retry st)
       \<and> retryDelay (state_of (retryFires w s)) = retryDelay s
       \<and> maxRetry (state_of (retryFires w s)) = maxRetry s"
proof -
  from assms(1) obtain t d where
    t: "retryTimeout s = Some t" "(t, LoadInternalCb, d) \<in> set (timers s)"
       "\<forall>x\<in>set (timers s). fst x = t \<longrightarrow> x = (t, LoadInternalCb, d)"
    unfolding retry_pending_def by blast
  from assms(1) obtain f where
    f0: "frag s = Some f" "level f < length (levels w)" "peerAgentModule w"
       "peerAgentLoader s = None"
    and fr: "\<forall>x\<in>set (timers s). fst x < next_timer s"
    unfolding retry_pending_def by blast
  from assms have na: "\<not> aborted st"
    unfolding retry_pending_def by (elim conjE exE) simp
  note f = f0 na
  have fi: "find (\<lambda>x. fst x = t) (timers s) = Some (t, LoadInternalCb, d)"
    by (rule find_unique [OF t(2) t(3)])
  obtain hdrs wc where x: "extractInfoFromXhrSetup w (xhrSetup s) (url s) = (hdrs, wc)"
    by (cases "extractInfoFromXhrSetup w (xhrSetup s) (url s)")
  have e: "\<exists>r v. state_of (retryFires w s) =
     s\<lparr>stats := Some (st\<lparr>tfirst := Null, loaded := Some 0\<rparr>),
       timers := filter (\<lambda>x. fst x \<noteq> t) (timers s) @ [(next_timer s, LoadTimeoutCb, timeout s)],
       next_timer := Suc (next_timer s),
       requestTimeout := Some (next_timer s),
       live := live s @ [next_handle s],
       requests := requests s @ [(next_handle s, r, v)],
       next_handle := Suc (next_handle s),
       peerAgentLoader := Some (next_handle s)\<rparr>"
    using t(1) fi f assms(2) x
    by (auto simp: retryFires_def fireTimer_def loadInternal_def setTimeout_def getSegment_def Let_def)
  then obtain r v where e': "state_of (retryFires w s) =
     s\<lparr>stats := Some (st\<lparr>tfirst := Null, loaded := Some 0\<rparr>),
       timers := filter (\<lambda>x. fst x \<noteq> t) (timers s) @ [(next_timer s, LoadTimeoutCb, timeout s)],
       next_timer := Suc (next_timer s),
       requestTimeout := Some (next_timer s),
       live := live s @ [next_handle s],
       requests := requests s @ [(next_handle s, r, v)],
       next_handle := Suc (next_handle s),
       peerAgentLoader := Some (next_handle s)\<rparr>"
    by blast
  have fr': "\<forall>x\<in>set (filter (\<lambda>x. fst x \<noteq> t) (timers s)
                      @ [(next_timer s, LoadTimeoutCb, timeout s)]). fst x < Suc (next_timer s)"
    using fr by (simp add: less_Suc_eq)
  have "attempting w (state_of (retryFires w s))"
    unfolding e' attempting_def using f fr' by simp
  moreover have "\<exists>st'. stats (state_of (retryFires w s)) = Some st' \<and> retry st' = retry st"
    unfolding e' by simp
  moreover have "retryDelay (state_of (retryFires w s)) = retryDelay s"
    "maxRetry (state_of (retryFires w s)) = maxRetry s"
    unfolding e' by simp_all
  ultimately show ?thesis by blast
qed

lemma failures_backoff:
  assumes "attempting w s" "stats s = Some st" "es \<noteq> []" "retry st + length es \<le> maxRetry s"
  shows "\<exists>st' t. stats (failures w es s) = Some st' \<and> retry st' = retry st + length es
           \<and> retryDelay (failures w es s) = backoff (length es) (retryDelay s)
           \<and> retryTimeout (failures w es s) = Some t
           \<and> (t, LoadInternalCb, backoff (length es - 1) (retryDelay s))
                \<in> set (timers (failures w es s))"
  using assms
proof (induction w es s arbitrary: st rule: failures.induct)
  case (1 w s)
  then show ?case by simp
next
  case (2 w e s)
  then have "retry st < maxRetry s" by simp
  from fail_step [OF "2.prems"(1,2) this, of e] show ?case by simp
next
  case (3 w e e' es s)
  let ?s1 = "state_of (transferFails w e s)"
  let ?s2 = "state_of (retryFires w ?s1)"
  from "3.prems" have lt: "retry st < maxRetry s" by simp
  from fail_step [OF "3.prems"(1,2) lt, of e]
  have 1: "stats ?s1 = Some (st\<lparr>retry := Suc (retry st)\<rparr>)"
    "retryDelay ?s1 = min (2 * retryDelay s) 64000" "maxRetry ?s1 = maxRetry s"
    "retry_pending w ?s1"
    by simp_all
  from retry_step [OF 1(4) 1(1)] obtain st2 where
    2: "attempting w ?s2" "stats ?s2 = Some st2" "retry st2 = Suc (retry st)"
       "retryDelay ?s2 = min (2 * retryDelay s) 64000" "maxRetry ?s2 = maxRetry s"
    using 1(2,3) by auto
  have "retry st2 + length (e' # es) \<le> maxRetry ?s2" using "3.prems"(4) 2(3,5) by simp
  from "3.IH" [OF 2(1,2) _ this] 2(3,4) show ?case by simp
qed

lemma load0: "load wrapper0 5 call0 (P2PLoader None) = Inr loaded0"
  by (simp add: loaded0_eq P2PLoader_eq load_def loadInternal_def setTimeout_def getSegment_def
      call0_def frag0_def wrapper0_def Let_def showInt_def showNat.simps digit_def)

text \<open>
  Claim C3, as stated, fails when the initial delay exceeds the cap: \<open>loadError\<close> arms the
  timer with the stored delay and caps only the doubled value. With an initial delay of
  100000 the first retry timer is armed with 100000, where the claim's formula gives 64000.
\<close>

theorem retry_backoff_counterexample:
  "retry_delays (failures wrapper0 [503] (state_of (load wrapper0 5 callBig (P2PLoader None))))
     = [100000]
   \<and> min (2 ^ (1 - 1) * arg_retryDelay callBig) 64000 = 64000"
  by (simp add: P2PLoader_eq method_defs transferFails_def retry_delays_def callBig_def call0_def
      frag0_def wrapper0_def Let_def)

text \<open>
  Claim C3, amended. After a \<open>load\<close> call with initial retry delay \<open>d\<close> and \<open>n\<close> backend
  failures, \<open>n \<le> maxRetry\<close>, each but the last followed by the firing of its retry timer:
  the stored retry count is \<open>n\<close>; the stored delay is \<open>d\<close> for \<open>n = 0\<close> and
  \<open>min (2 ^ n * d) 64000\<close> for \<open>n \<ge> 1\<close>; and for \<open>n \<ge> 1\<close> the timer armed by the \<open>n\<close>-th failure
  carries the delay stored before it, which is \<open>d\<close> itself for \<open>n = 1\<close> and
  \<open>min (2 ^ (n - 1) * d) 64000\<close> for \<open>n \<ge> 2\<close>. (For \<open>d \<le> 64000\<close> these are the claim's values.)
\<close>

theorem retry_backoff:
  assumes "load w now c s0 = Inr s" "\<forall>x\<in>set (timers s0). fst x < next_timer s0"
    "length es = n" "n \<le> arg_maxRetry c"
  shows "\<exists>st. stats (failures w es s) = Some st \<and> retry st = n
           \<and> retryDelay (failures w es s)
               = (if n = 0 then arg_retryDelay c else min (2 ^ n * arg_retryDelay c) 64000)
           \<and> (1 \<le> n \<longrightarrow>
                (\<exists>t. retryTimeout (failures w es s) = Some t
                   \<and> (t, LoadInternalCb,
                        if n = 1 then arg_retryDelay c
                        else min (2 ^ (n - 1) * arg_retryDelay c) 64000)
                      \<in> set (timers (failures w es s))))"
proof -
  from load_attempting [OF assms(1,2)] obtain st where
    a: "attempting w s" "stats s = Some st" "retry st = 0"
       "retryDelay s = arg_retryDelay c" "maxRetry s = arg_maxRetry c"
    by blast
  show ?thesis
  proof (cases n)
    case 0
    with assms(3) a show ?thesis by simp
  next
    case (Suc m)
    with assms(3) have ne: "es \<noteq> []" by auto
    have "retry st + length es \<le> maxRetry s" using a assms(3,4) by simp
    from failures_backoff [OF a(1,2) ne this] obtain st' t where
      r: "stats (failures w es s) = Some st'" "retry st' = n"
         "retryDelay (failures w es s) = backoff n (arg_retryDelay c)"
         "retryTimeout (failures w es s) = Some t"
         "(t, LoadInternalCb, backoff (n - 1) (arg_retryDelay c)) \<in> set (timers (failures w es s))"
      using a(3,4) assms(3) by auto
    have b1: "backoff n (arg_retryDelay c) = min (2 ^ n * arg_retryDelay c) 64000"
      unfolding Suc by (rule backoff_closed)
    have b2: "backoff (n - 1) (arg_retryDelay c)
                = (if n = 1 then arg_retryDelay c else min (2 ^ (n - 1) * arg_retryDelay c) 64000)"
    proof (cases m)
      case 0
      with Suc show ?thesis by simp
    next
      case (Suc k)
      with \<open>n = Suc m\<close> have "n - 1 = Suc k" "n \<noteq> 1" by simp_all
      then show ?thesis using backoff_closed [of k "arg_retryDelay c"] by simp
    qed
    from r b1 b2 Suc show ?thesis by auto
  qed
qed

theorem retry_backoff_witness:
  "load wrapper0 5 call0 (P2PLoader None) = Inr loaded0
   \<and> timers (P2PLoader None) = [] \<and> length [503, 503 :: nat] = 2 \<and> 2 \<le> arg_maxRetry call0
   \<and> (\<exists>st. stats (failures wrapper0 [503, 503] loaded0) = Some st \<and> retry st = 2
         \<and> retryDelay (failures wrapper0 [503, 503] loaded0) = 4000
         \<and> (\<exists>t. retryTimeout (failures wrapper0 [503, 503] loaded0) = Some t
               \<and> (t, LoadInternalCb, 2000) \<in> set (timers (failures wrapper0 [503, 503] loaded0))))"
proof -
  have h: "load wrapper0 5 call0 (P2PLoader None) = Inr loaded0"
    "\<forall>x\<in>set (timers (P2PLoader None)). fst x < next_timer (P2PLoader None)"
    "length [503, 503 :: nat] = 2" "2 \<le> arg_maxRetry call0"
    by (rule load0) (simp_all add: P2PLoader_eq call0_def)
  have d: "arg_retryDelay call0 = 1000" by (simp add: call0_def)
  from retry_backoff [OF h] show ?thesis using h(1,4) by (simp add: d P2PLoader_eq)
qed

subsection \<open>The byte-range header\<close>

text \<open>
  On an instance whose \<open>byteRange\<close> field is unset, a \<open>load\<close> that issues a transfer adds a
  \<^verbatim>\<open>Range\<close> header to those of the request-customization hook exactly when both offsets
  are numbers, with the value \<^verbatim>\<open>bytes=start-(end-1)\<close>.
\<close>

lemma first_load_range_header:
  assumes "byteRange s = None" "load w now c s = Inr s'" "arg_frag c = Some f"
    "extractInfoFromXhrSetup w (xhrSetup s) (arg_url c) = (hdrs, wc)"
  shows "\<exists>h v. requests s' = requests s @
           [(h, \<lparr>req_url = arg_url c,
                 headers = (case (byteRangeStartOffset f, byteRangeEndOffset f) of
                              (Some a, Some b) \<Rightarrow>
                                hdrs(''Range'' \<mapsto> ''bytes='' @ showInt a @ ''-'' @ showInt (b - 1))
                            | _ \<Rightarrow> hdrs),
                 withCredentials = wc\<rparr>, v)]"
  using assms
  by (auto simp: load_def loadInternal_def setTimeout_def getSegment_def Let_def rangeHeader_def
      split: option.splits if_splits)

text \<open>
  Claim C8 asks for this at every \<open>load\<close> call. But \<open>load\<close> sets \<open>byteRange\<close> when both
  offsets are numbers and never clears it, and \<open>loadInternal\<close> tests that field, not the
  fragment. On the instance that loaded a fragment with offsets 100 and 200 (header
  \<^verbatim>\<open>bytes=100-199\<close>), a later \<open>load\<close> of a fragment without offsets sends the header
  \<^verbatim>\<open>bytes=undefined-NaN\<close>.
\<close>

theorem stale_byteRange_header:
  "map (\<lambda>x. headers (fst (snd x)) ''Range'')
     (requests (run wrapper0 [Load 5 call0, BackendSuccess 1 9 9 ''d'' sample20, Load 50 call1]
                  (P2PLoader None)))
   = [Some ''bytes=100-199'', Some ''bytes=undefined-NaN'']
   \<and> byteRangeStartOffset frag1 = None \<and> byteRangeEndOffset frag1 = None
   \<and> arg_frag call1 = Some frag1"
  by (simp add: P2PLoader_eq method_defs call0_def call1_def frag0_def frag1_def wrapper0_def
      sample20_def Let_def rangeHeader_def showInt_def showNat.simps digit_def)

subsection \<open>One transfer and one timer at a time\<close>

lemma consistent_cases:
  assumes "consistent s"
  obtains (idle) "peerAgentLoader s = None" "live s = []" "timers s = []"
  | (pending) t d st where "peerAgentLoader s = None" "live s = []"
      "timers s = [(t, LoadInternalCb, d)]" "retryTimeout s = Some t"
      "stats s = Some st" "\<not> aborted st"
  | (stranded) t d where "peerAgentLoader s = None" "live s = []"
      "timers s = [(t, LoadTimeoutCb, d)]" "requestTimeout s = Some t"
  | (active) h st where "peerAgentLoader s = Some h" "live s = [h] \<or> live s = []"
      "stats s = Some st" "\<not> aborted st" "timers s = []"
  | (timed) h st t d where "peerAgentLoader s = Some h" "live s = [h] \<or> live s = []"
      "stats s = Some st" "\<not> aborted st"
      "timers s = [(t, LoadTimeoutCb, d)]" "requestTimeout s = Some t"
  using assms unfolding consistent_def
  by (auto split: option.splits list.splits prod.splits timer_cb.splits)

lemma consistent_load:
  assumes "consistent s" "peerAgentLoader s \<noteq> None \<or> timers s = []"
  shows "consistent (state_of (load w now c s))"
  using assms
  by (cases rule: consistent_cases)
     (auto simp: consistent_def load_def loadInternal_def setTimeout_def getSegment_def Let_def
      split: option.splits prod.splits)

lemma consistent_abort:
  assumes "consistent s"
  shows "consistent (state_of (abort s))"
  using assms
  by (cases rule: consistent_cases)
     (auto simp: consistent_def abort_def abortTransfer_def reset_eq)

lemma consistent_loadSuccess:
  assumes "consistent s"
    "h \<in> set (live s) \<or> (case stats s of None \<Rightarrow> False | Some st \<Rightarrow> aborted st)"
  shows "consistent (state_of (loadSuccess now now' d bs (finished h s)))"
  using assms
  by (cases rule: consistent_cases)
     (auto simp: consistent_def loadSuccess_def finished_def host_def reset_eq Let_def
      split: option.splits)

lemma consistent_loadError:
  assumes "consistent s"
    "h \<in> set (live s) \<or> (case stats s of None \<Rightarrow> False | Some st \<Rightarrow> aborted st)"
  shows "consistent (state_of (loadError status (finished h s)))"
  using assms
  by (cases rule: consistent_cases)
     (auto simp: consistent_def loadError_def finished_def host_def setTimeout_def reset_eq Let_def
      split: option.splits)

lemma consistent_loadProgress:
  assumes "consistent s"
  shows "consistent (state_of (loadProgress now e s))"
  using assms
  by (cases rule: consistent_cases)
     (auto simp: consistent_def loadProgress_def host_def Let_def split: option.splits)

lemma consistent_fireTimer:
  assumes "consistent s"
  shows "consistent (state_of (fireTimer w t s))"
  using assms
  by (cases rule: consistent_cases)
     (auto simp: consistent_def fireTimer_def loadTimeout_def loadInternal_def host_def
        setTimeout_def getSegment_def Let_def
      split: option.splits prod.splits)

lemma consistent_exec:
  assumes "consistent s" "permitted ev s"
  shows "consistent (state_of (exec w ev s))"
  using assms
  by (cases ev)
     (auto simp: consistent_load consistent_abort destroy_def consistent_loadSuccess
        consistent_loadError consistent_loadProgress consistent_fireTimer)

lemma enabled_permitted: "enabled False ev s \<Longrightarrow> permitted ev s"
  by (cases ev) simp_all

lemma consistent_run:
  assumes "consistent s" "admissible False w evs s"
  shows "consistent (run w evs s)"
  using assms
  by (induction evs arbitrary: s) (simp_all add: consistent_exec enabled_permitted)







subsection \<open>One terminal callback for each load\<close>

lemma run_append: "run w (xs @ ys) s = run w ys (run w xs s)"
  by (induction xs arbitrary: s) simp_all

lemma admissible_append:
  "admissible late w (xs @ ys) s \<longleftrightarrow> admissible late w xs s \<and> admissible late w ys (run w xs s)"
  by (induction xs arbitrary: s) auto

lemma serving_cases:
  assumes "serving w T n s"
  obtains (complete) "peerAgentLoader s = None" "live s = []" "timers s = []"
      "terminal_calls s \<noteq> []" "butlast (terminal_calls s) = T"
  | (pending) t d where "peerAgentLoader s = None" "live s = []"
      "timers s = [(t, LoadInternalCb, d)]" "retryTimeout s = Some t" "terminal_calls s = T"
  | (active) h where "peerAgentLoader s = Some h" "live s = [h]" "terminal_calls s = T"
      "timers s = []"
  | (timed) h t d where "peerAgentLoader s = Some h" "live s = [h]" "terminal_calls s = T"
      "timers s = [(t, LoadTimeoutCb, d)]" "requestTimeout s = Some t"
  using assms unfolding serving_def
  by (auto split: option.splits list.splits prod.splits)

lemma serving_common:
  assumes "serving w T n s"
  obtains st f cb cb' where "stats s = Some st" "\<not> aborted st" "retry st \<le> maxRetry s"
    "onSuccess s = Some cb" "onError s = Some cb'" "frag s = Some f"
    "level f < length (levels w)" "peerAgentModule w"
    "\<forall>t. requestTimeout s = Some t \<longrightarrow> t < next_timer s"
    "Some (next_timer s) \<noteq> requestTimeout s"
    "length (requests s)
       = n + retry st + (if peerAgentLoader s = None \<and> timers s \<noteq> [] then 0 else 1)"
  using assms unfolding serving_def
  by (auto split: option.splits)

lemma serving_load:
  assumes "load w now c s0 = Inr s1" "timers s0 = []" "live s0 = []"
    "arg_onSuccess c \<noteq> None" "arg_onError c \<noteq> None"
  shows "serving w (terminal_calls s0) (length (requests s0)) s1"
  using assms
  by (auto simp: serving_def load_def loadInternal_def setTimeout_def getSegment_def Let_def
        terminal_calls_def
      split: option.splits prod.splits if_splits)

lemma serving_loadSuccess:
  assumes "serving w T n s" "h \<in> set (live s)"
  shows "serving w T n (state_of (loadSuccess now now' d bs (finished h s)))"
  using assms(1)
proof (cases rule: serving_common)
  case 1
  from assms show ?thesis
    by (cases rule: serving_cases)
       (use 1 in \<open>auto simp: serving_def loadSuccess_def finished_def host_def reset_eq Let_def
          terminal_calls_def\<close>)
qed

lemma serving_loadError:
  assumes "serving w T n s" "h \<in> set (live s)"
  shows "serving w T n (state_of (loadError status (finished h s)))"
  using assms(1)
proof (cases rule: serving_common)
  case 1
  from assms show ?thesis
    by (cases rule: serving_cases)
       (use 1 in \<open>auto simp: serving_def loadError_def finished_def host_def setTimeout_def
          reset_eq Let_def terminal_calls_def\<close>)
qed

lemma serving_loadProgress:
  assumes "serving w T n s"
  shows "serving w T n (state_of (loadProgress now e s))"
  using assms(1)
proof (cases rule: serving_common)
  case 1
  from assms show ?thesis
    by (cases rule: serving_cases)
       (use 1 in \<open>auto simp: serving_def loadProgress_def host_def Let_def terminal_calls_def
          split: option.splits\<close>)
qed

lemma serving_fireTimer:
  assumes "serving w T n s"
  shows "serving w T n (state_of (fireTimer w t s))"
  using assms(1)
proof (cases rule: serving_common)
  case 1
  from assms show ?thesis
    by (cases rule: serving_cases)
       (use 1 in \<open>auto simp: serving_def fireTimer_def loadTimeout_def loadInternal_def host_def
          setTimeout_def getSegment_def Let_def terminal_calls_def
          split: option.splits prod.splits\<close>)
qed

lemma serving_exec:
  assumes "serving w T n s" "enabled False ev s" "is_callback ev"
  shows "serving w T n (state_of (exec w ev s))"
  using assms
  by (cases ev)
     (simp_all add: serving_loadSuccess serving_loadError serving_loadProgress serving_fireTimer)

lemma serving_run:
  assumes "serving w T n s" "admissible False w evs s" "\<forall>ev\<in>set evs. is_callback ev"
  shows "serving w T n (run w evs s)"
  using assms
  by (induction evs arbitrary: s) (simp_all add: serving_exec)

lemma maxRetry_exec:
  assumes "is_callback ev"
  shows "maxRetry (state_of (exec w ev s)) = maxRetry s"
  using assms
  by (cases ev)
     (auto simp: method_defs Let_def split: option.splits prod.splits timer_cb.splits)

lemma maxRetry_run:
  assumes "\<forall>ev\<in>set evs. is_callback ev"
  shows "maxRetry (run w evs s) = maxRetry s"
  using assms
  by (induction evs arbitrary: s) (simp_all add: maxRetry_exec)

text \<open>
  One \<open>load\<close> on an instance at rest. Take a \<open>load\<close> call that returns normally on an
  instance with no timer armed and no transfer in flight, with a success and an error
  callback, and let it be followed by backend callbacks and timer firings only (no \<open>abort\<close>,
  no other \<open>load\<close>), the backend calling back only for a transfer in flight, which it ends
  with its success or error callback, and the wrapper staying as it is. As long as a
  transfer is in flight or a timer is armed, no call to the host's success or error callback
  has been made; once no transfer is in flight and no timer is armed, exactly one such call
  has been made. At most \<open>maxRetry + 1\<close> transfers are issued for the load.
\<close>

lemma single_load_terminal_call:
  assumes "load w now c s0 = Inr s1" "timers s0 = []" "live s0 = []"
    "arg_onSuccess c \<noteq> None" "arg_onError c \<noteq> None"
    "admissible False w evs s1" "\<forall>ev\<in>set evs. is_callback ev" "s = run w evs s1"
  shows "(if live s = [] \<and> timers s = []
          then \<exists>c. terminal_calls s = terminal_calls s0 @ [c]
          else terminal_calls s = terminal_calls s0
               \<and> ((\<exists>h. live s = [h]) \<or> (\<exists>t d. timers s = [(t, LoadInternalCb, d)])))
         \<and> length (requests s) \<le> length (requests s0) + arg_maxRetry c + 1"
proof -
  have m1: "maxRetry s1 = arg_maxRetry c"
    using assms(1)
    by (auto simp: load_def loadInternal_def setTimeout_def getSegment_def Let_def
        split: option.splits prod.splits if_splits)
  have "maxRetry s = arg_maxRetry c"
    unfolding assms(8) using assms(7) m1 by (simp add: maxRetry_run)
  moreover have "serving w (terminal_calls s0) (length (requests s0)) s1"
    using assms(1-5) by (rule serving_load)
  then have v: "serving w (terminal_calls s0) (length (requests s0)) s"
    unfolding assms(8) using assms(6,7) by (rule serving_run)
  from v have "length (requests s) \<le> length (requests s0) + maxRetry s + 1"
    by (cases rule: serving_common) (simp split: if_splits)
  moreover from v have "if live s = [] \<and> timers s = []
          then \<exists>c. terminal_calls s = terminal_calls s0 @ [c]
          else terminal_calls s = terminal_calls s0
               \<and> ((\<exists>h. live s = [h]) \<or> (\<exists>t d. timers s = [(t, LoadInternalCb, d)]))"
  proof (cases rule: serving_cases)
    case complete
    from complete(4) have "terminal_calls s = butlast (terminal_calls s) @ [last (terminal_calls s)]"
      by simp
    with complete show ?thesis by auto
  qed simp_all
  ultimately show ?thesis by simp
qed

lemma single_load_terminal_call_example:
  "load wrapper0 5 call0 (P2PLoader None) = Inr loaded0
   \<and> timers (P2PLoader None) = [] \<and> live (P2PLoader None) = []
   \<and> arg_onSuccess call0 \<noteq> None \<and> arg_onError call0 \<noteq> None
   \<and> admissible False wrapper0
       [BackendError 1 503, TimerFires 2, BackendProgress 2 7 sample10,
        BackendSuccess 2 9 9 ''d'' sample20] loaded0
   \<and> live (run wrapper0
       [BackendError 1 503, TimerFires 2, BackendProgress 2 7 sample10,
        BackendSuccess 2 9 9 ''d'' sample20] loaded0) = []
   \<and> timers (run wrapper0
       [BackendError 1 503, TimerFires 2, BackendProgress 2 7 sample10,
        BackendSuccess 2 9 9 ''d'' sample20] loaded0) = []
   \<and> (\<exists>c. terminal_calls (run wrapper0
       [BackendError 1 503, TimerFires 2, BackendProgress 2 7 sample10,
        BackendSuccess 2 9 9 ''d'' sample20] loaded0) = terminal_calls (P2PLoader None) @ [c])"
proof -
  let ?evs = "[BackendError 1 503, TimerFires 2, BackendProgress 2 7 sample10,
        BackendSuccess 2 9 9 ''d'' sample20]"
  have h: "load wrapper0 5 call0 (P2PLoader None) = Inr loaded0"
    "timers (P2PLoader None) = []" "live (P2PLoader None) = []"
    "arg_onSuccess call0 \<noteq> None" "arg_onError call0 \<noteq> None"
    by (rule load0) (simp_all add: P2PLoader_eq call0_def)
  have a: "admissible False wrapper0 ?evs loaded0"
    "\<forall>ev\<in>set ?evs. is_callback ev"
    by (simp_all add: loaded0_eq method_defs wrapper0_def frag0_def sample10_def sample20_def
        Let_def)
  have e: "live (run wrapper0 ?evs loaded0) = []" "timers (run wrapper0 ?evs loaded0) = []"
    by (simp_all add: loaded0_eq method_defs wrapper0_def frag0_def sample10_def sample20_def
        Let_def)
  from single_load_terminal_call [OF h a refl] e h a(1) show ?thesis by simp
qed

text \<open>
  A failure within the retry budget calls no host callback: it stores the identity of the
  retry timer and counts the retry.
\<close>

lemma failure_within_budget:
  assumes "stats s = Some st" "\<not> aborted st" "retry st < maxRetry s"
  shows "\<exists>s'. loadError status s = Inr s' \<and> calls s' = calls s
           \<and> retryTimeout s' = Some (next_timer s)
           \<and> stats s' = Some (st\<lparr>retry := Suc (retry st)\<rparr>)"
  using assms by (simp add: loadError_def setTimeout_def reset_eq Let_def)

text \<open>
  Claim C6 does not hold of the code. The hooks that the backend calls do not know which
  transfer calls them, and the aborted flag, by which the source means to ignore the
  callbacks of an aborted transfer, is kept in the Stats record, which the next \<open>load\<close>
  replaces. The host calls \<open>load\<close>, \<open>abort\<close> and \<open>load\<close> again, with other callbacks; the
  second \<open>load\<close> is never aborted. The backend ends each of the two transfers it was asked
  for with one success callback, the cancelled transfer after the second \<open>load\<close>. The
  success callback of the second \<open>load\<close> is called twice: first with the data of the
  cancelled transfer, then with its own.
\<close>

theorem success_twice_for_one_load:
  "admissible True wrapper0
     [Load 5 call0, Abort, Load 9 call2, BackendSuccess 1 12 12 ''old'' sample20,
      BackendSuccess 2 13 13 ''new'' sample20]
     (P2PLoader None)
   \<and> arg_onSuccess call0 = Some 1 \<and> arg_onSuccess call2 = Some 11
   \<and> map fst (requests (run wrapper0
        [Load 5 call0, Abort, Load 9 call2, BackendSuccess 1 12 12 ''old'' sample20,
         BackendSuccess 2 13 13 ''new'' sample20]
        (P2PLoader None))) = [1, 2]
   \<and> map success_payload (terminal_calls (run wrapper0
        [Load 5 call0, Abort, Load 9 call2, BackendSuccess 1 12 12 ''old'' sample20,
         BackendSuccess 2 13 13 ''new'' sample20]
        (P2PLoader None)))
      = [Some (11, ''old''), Some (11, ''new'')]"
  by (simp add: terminal_calls_def P2PLoader_eq method_defs call0_def call1_def call2_def
      frag0_def frag1_def wrapper0_def sample20_def fl_pos_iff Let_def)

subsection \<open>Callbacks after an abort\<close>

lemma enabled_late_strict: "cancelled s = [] \<Longrightarrow> enabled True ev s \<Longrightarrow> enabled False ev s"
  by (cases ev) simp_all

lemma cancelled_exec:
  assumes "cancelled s = []" "ev \<noteq> Abort" "ev \<noteq> Destroy"
  shows "cancelled (state_of (exec w ev s)) = []"
  using assms
  by (cases ev)
     (auto simp: method_defs Let_def split: option.splits prod.splits timer_cb.splits)

lemma quiet_exec:
  assumes "quiet s" "enabled True ev s" "\<not> is_load ev"
  shows "quiet (state_of (exec w ev s))
         \<and> terminal_calls (state_of (exec w ev s)) = terminal_calls s"
  using assms
  by (cases ev)
     (auto simp: quiet_def terminal_calls_def method_defs Let_def split: option.splits)

lemma abort_quiet:
  assumes "consistent s" "cancelled s = []"
  shows "quiet (state_of (abort s)) \<and> terminal_calls (state_of (abort s)) = terminal_calls s"
  using assms(1)
  by (cases rule: consistent_cases)
     (use assms(2) in \<open>auto simp: quiet_def terminal_calls_def abort_def abortTransfer_def reset_eq\<close>)

lemma unaborted_exec:
  assumes "quiet s \<or> cancelled s = [] \<and> consistent s" "enabled True ev s" "\<not> is_load ev"
  shows "quiet (state_of (exec w ev s))
         \<or> cancelled (state_of (exec w ev s)) = [] \<and> consistent (state_of (exec w ev s))"
proof (cases "quiet s")
  case True
  with assms(2,3) show ?thesis by (simp add: quiet_exec)
next
  case False
  with assms(1) have c: "cancelled s = []" "consistent s" by simp_all
  show ?thesis
  proof (cases "ev = Abort \<or> ev = Destroy")
    case True
    with abort_quiet [OF c(2,1)] show ?thesis by (auto simp: destroy_def)
  next
    case False
    from c(1) assms(2) have "enabled False ev s" by (rule enabled_late_strict)
    then have "permitted ev s" by (rule enabled_permitted)
    with c(2) have "consistent (state_of (exec w ev s))" by (rule consistent_exec)
    moreover from c(1) False have "cancelled (state_of (exec w ev s)) = []"
      by (simp add: cancelled_exec)
    ultimately show ?thesis by simp
  qed
qed

lemma unaborted_run:
  assumes "quiet s \<or> cancelled s = [] \<and> consistent s" "admissible True w evs s"
    "\<forall>ev\<in>set evs. \<not> is_load ev"
  shows "quiet (run w evs s) \<or> cancelled (run w evs s) = [] \<and> consistent (run w evs s)"
  using assms
proof (induction evs arbitrary: s)
  case Nil
  then show ?case by simp
next
  case (Cons ev evs)
  from Cons.prems have 1: "quiet (state_of (exec w ev s))
         \<or> cancelled (state_of (exec w ev s)) = [] \<and> consistent (state_of (exec w ev s))"
    by (intro unaborted_exec) simp_all
  from Cons.prems have "admissible True w evs (state_of (exec w ev s))"
    "\<forall>ev\<in>set evs. \<not> is_load ev"
    by simp_all
  from Cons.IH [OF 1 this] show ?case by simp
qed

lemma quiet_run:
  assumes "quiet s" "admissible True w evs s" "\<forall>ev\<in>set evs. \<not> is_load ev"
  shows "quiet (run w evs s) \<and> terminal_calls (run w evs s) = terminal_calls s"
  using assms
proof (induction evs arbitrary: s)
  case Nil
  then show ?case by simp
next
  case (Cons ev evs)
  from Cons.prems have q: "quiet (state_of (exec w ev s))"
    "terminal_calls (state_of (exec w ev s)) = terminal_calls s"
    by (simp_all add: quiet_exec)
  from Cons.prems have "admissible True w evs (state_of (exec w ev s))"
    "\<forall>ev\<in>set evs. \<not> is_load ev"
    by simp_all
  from Cons.IH [OF q(1) this] q(2) show ?case by simp
qed


lemma silent_after_abort:
  assumes "peerAgentLoader s0 = None" "timers s0 = []" "live s0 = []" "cancelled s0 = []"
    and "admissible True w (Load now c # evs @ a # evs') s0"
    and "a = Abort \<or> a = Destroy"
    and "\<forall>ev\<in>set (evs @ evs'). \<not> is_load ev"
  shows "terminal_calls (run w (Load now c # evs @ a # evs') s0)
           = terminal_calls (run w (Load now c # evs) s0)"
proof -
  let ?s1 = "state_of (load w now c s0)"
  let ?s2 = "run w evs ?s1"
  let ?s3 = "state_of (exec w a ?s2)"
  have c0: "consistent s0" using assms(1-3) by (simp add: consistent_def)
  moreover from assms(2) have "peerAgentLoader s0 \<noteq> None \<or> timers s0 = []" by simp
  ultimately have "consistent ?s1" by (rule consistent_load)
  moreover have "cancelled ?s1 = []"
    using cancelled_exec [of s0 "Load now c" w] assms(4) by simp
  ultimately have 1: "quiet ?s1 \<or> cancelled ?s1 = [] \<and> consistent ?s1" by simp
  from assms(5) have a: "admissible True w evs ?s1" "admissible True w evs' ?s3"
    by (simp_all add: admissible_append)
  from assms(7) have n: "\<forall>ev\<in>set evs. \<not> is_load ev" "\<forall>ev\<in>set evs'. \<not> is_load ev"
    by simp_all
  from unaborted_run [OF 1 a(1) n(1)]
  have 2: "quiet ?s2 \<or> cancelled ?s2 = [] \<and> consistent ?s2" .
  have 3: "quiet ?s3 \<and> terminal_calls ?s3 = terminal_calls ?s2"
  proof (cases "quiet ?s2")
    case True
    then show ?thesis using assms(6) by (intro quiet_exec) auto
  next
    case False
    with 2 have "consistent ?s2" "cancelled ?s2 = []" by simp_all
    from abort_quiet [OF this] assms(6) show ?thesis by (auto simp: destroy_def)
  qed
  from quiet_run [OF conjunct1 [OF 3] a(2) n(2)] 3
  have "terminal_calls (run w evs' ?s3) = terminal_calls ?s2" by simp
  then show ?thesis by (simp add: run_append)
qed

text \<open>
  One \<open>load\<close> on an instance that no earlier transfer can call back. Take a \<open>load\<close> call
  on an instance with no handle held, no timer armed and no transfer in flight or cancelled,
  followed by backend callbacks, timer firings and host calls other than \<open>load\<close>, where the
  backend may call back even for a transfer that was cancelled through its handle. From a
  call of \<open>abort\<close> (or \<open>destroy\<close>) on, no call to the host's success or error callback is
  made. The mechanism: when a handle is held, \<open>abort\<close> marks the Stats aborted and cancels
  the transfer; and \<open>loadSuccess\<close> and \<open>loadError\<close> return at once, changing nothing,
  whenever the Stats are marked aborted.
\<close>

lemma single_load_abort_silences:
  "(peerAgentLoader s0 = None \<and> timers s0 = [] \<and> live s0 = [] \<and> cancelled s0 = []
      \<and> admissible True w (Load now c # evs @ a # evs') s0 \<and> (a = Abort \<or> a = Destroy)
      \<and> (\<forall>ev\<in>set (evs @ evs'). \<not> is_load ev)
    \<longrightarrow> terminal_calls (run w (Load now c # evs @ a # evs') s0)
          = terminal_calls (run w (Load now c # evs) s0))
   \<and> (peerAgentLoader s = Some h \<and> stats s = Some st
        \<longrightarrow> (\<exists>s' st'. abort s = Inr s' \<and> stats s' = Some st' \<and> aborted st'
               \<and> h \<in> set (cancelled s')))
   \<and> (stats s = Some st \<and> aborted st
        \<longrightarrow> loadSuccess t t' d bs s = Inr s \<and> loadError status s = Inr s)"
proof (intro conjI impI)
  assume "peerAgentLoader s0 = None \<and> timers s0 = [] \<and> live s0 = [] \<and> cancelled s0 = []
      \<and> admissible True w (Load now c # evs @ a # evs') s0 \<and> (a = Abort \<or> a = Destroy)
      \<and> (\<forall>ev\<in>set (evs @ evs'). \<not> is_load ev)"
  then show "terminal_calls (run w (Load now c # evs @ a # evs') s0)
          = terminal_calls (run w (Load now c # evs) s0)"
    by (intro silent_after_abort) simp_all
next
  assume "peerAgentLoader s = Some h \<and> stats s = Some st"
  then show "\<exists>s' st'. abort s = Inr s' \<and> stats s' = Some st' \<and> aborted st'
               \<and> h \<in> set (cancelled s')"
    by (simp add: abort_def abortTransfer_def reset_eq)
next
  assume "stats s = Some st \<and> aborted st"
  then show "loadSuccess t t' d bs s = Inr s" by (simp add: loadSuccess_def)
next
  assume "stats s = Some st \<and> aborted st"
  then show "loadError status s = Inr s" by (simp add: loadError_def)
qed

lemma single_load_abort_silences_example:
  "admissible True wrapper0
     (Load 5 call0 # [BackendProgress 1 6 sample10] @ Abort
        # [BackendProgress 1 8 sample20, BackendSuccess 1 9 9 ''d'' sample20])
     (P2PLoader None)
   \<and> terminal_calls (run wrapper0
       (Load 5 call0 # [BackendProgress 1 6 sample10] @ Abort
          # [BackendProgress 1 8 sample20, BackendSuccess 1 9 9 ''d'' sample20])
       (P2PLoader None)) = []
   \<and> peerAgentLoader loaded0 = Some 1
   \<and> (\<exists>s' st'. abort loaded0 = Inr s' \<and> stats s' = Some st' \<and> aborted st')"
proof -
  let ?evs = "[BackendProgress 1 6 sample10]"
  let ?evs' = "[BackendProgress 1 8 sample20, BackendSuccess 1 9 9 ''d'' sample20]"
  let ?st = "\<lparr>trequest = 5, retry = 0, tfirst = Null, loaded = Some 0,
              tload = None, aborted = False\<rparr>"
  have h: "peerAgentLoader (P2PLoader None) = None" "timers (P2PLoader None) = []"
    "live (P2PLoader None) = []" "cancelled (P2PLoader None) = []"
    by (simp_all add: P2PLoader_eq)
  have a: "admissible True wrapper0 (Load 5 call0 # ?evs @ Abort # ?evs') (P2PLoader None)"
    by (simp add: P2PLoader_eq method_defs call0_def frag0_def wrapper0_def sample10_def
        sample20_def Let_def)
  have n: "\<forall>ev\<in>set (?evs @ ?evs'). \<not> is_load ev" by simp
  have e: "terminal_calls (run wrapper0 (Load 5 call0 # ?evs) (P2PLoader None)) = []"
    by (simp add: terminal_calls_def P2PLoader_eq method_defs call0_def frag0_def wrapper0_def
        sample10_def Let_def)
  have l: "peerAgentLoader loaded0 = Some 1" "stats loaded0 = Some ?st"
    by (simp_all add: loaded0_fields)
  note T = single_load_abort_silences [of "P2PLoader None" wrapper0 5 call0 ?evs Abort ?evs' loaded0 1 ?st]
  from T h a n
  have 1: "terminal_calls (run wrapper0 (Load 5 call0 # ?evs @ Abort # ?evs') (P2PLoader None))
             = terminal_calls (run wrapper0 (Load 5 call0 # ?evs) (P2PLoader None))"
    by blast
  from T l have 2: "\<exists>s' st'. abort loaded0 = Inr s' \<and> stats s' = Some st' \<and> aborted st'"
    by blast
  from 1 e have "terminal_calls (run wrapper0 (Load 5 call0 # ?evs @ Abort # ?evs')
                   (P2PLoader None)) = []"
    by (rule trans)
  with a 2 l(1) show ?thesis by blast
qed

text \<open>
  Claim C1 does not hold of the code. The source means to ignore the callbacks of an aborted
  transfer, and tests the aborted flag for it; but the flag is kept in the Stats record,
  which the next \<open>load\<close> replaces, and \<open>abort\<close> sets it only while a handle is held. Two
  executions on one instance, in each of which the backend calls back once for each
  transfer. In the first, the host calls \<open>load\<close>, \<open>abort\<close> and \<open>load\<close> again; the success
  callback of the cancelled transfer arrives then, and is handed to the success callback of
  the second \<open>load\<close>. In the second, the error callback of the cancelled transfer arrives
  after the second \<open>load\<close>: the loader takes it for a failure of the second transfer,
  schedules a retry and drops the handle; the host calls \<open>abort\<close>, which finds no handle,
  sets no flag and cancels no transfer; the success callback of the second transfer arrives
  after this \<open>abort\<close> and is handed to the host.
\<close>

theorem callback_after_abort:
  "admissible True wrapper0
     [Load 5 call0, Abort, Load 9 call2, BackendSuccess 1 12 12 ''old'' sample20]
     (P2PLoader None)
   \<and> terminal_calls (run wrapper0 [Load 5 call0, Abort] (P2PLoader None)) = []
   \<and> map success_payload (terminal_calls (run wrapper0
        [Load 5 call0, Abort, Load 9 call2, BackendSuccess 1 12 12 ''old'' sample20]
        (P2PLoader None)))
      = [Some (11, ''old'')]
   \<and> admissible True wrapper0
       [Load 5 call0, Abort, Load 9 call2, BackendError 1 503, Abort,
        BackendSuccess 2 13 13 ''new'' sample20]
       (P2PLoader None)
   \<and> terminal_calls (run wrapper0
        [Load 5 call0, Abort, Load 9 call2, BackendError 1 503, Abort] (P2PLoader None)) = []
   \<and> map success_payload (terminal_calls (run wrapper0
        [Load 5 call0, Abort, Load 9 call2, BackendError 1 503, Abort,
         BackendSuccess 2 13 13 ''new'' sample20]
        (P2PLoader None)))
      = [Some (11, ''new'')]"
  by (simp add: terminal_calls_def P2PLoader_eq method_defs call0_def call1_def call2_def
      frag0_def frag1_def wrapper0_def sample20_def fl_pos_iff Let_def)

end
